(* ===== verification/JS_Prelude.thy ===== *)
theory JS_Prelude
  imports Main "HOL-Library.AList" "HOL-Library.Code_Target_Numeral"
begin

text \<open>
  Shared vocabulary of the development: the lemma collections the component theories
  fill, the association-list and list facts that more than one component uses, and the
  small string helpers (decimal digits, comma joins) that the JSON codec and the HTTP
  model both need. Nothing here models code of the repository.
\<close>

named_theorems js_simps "evaluation rules of the JavaScript value model"

named_theorems storage_simps "evaluation rules of the Web Storage model"

subsection \<open>Association lists with distinct keys\<close>

type_synonym ('k, 'v) alist = "('k \<times> 'v) list"

abbreviation distinct_keys :: "('k, 'v) alist \<Rightarrow> bool" where
  "distinct_keys ps \<equiv> distinct (map fst ps)"

subsection \<open>Decimal digits\<close>

text \<open>
  The decimal rendering of a natural number, most significant digit first, as
  \<open>Number.prototype.toString\<close> writes an integral value.
\<close>

definition digit_char :: "nat \<Rightarrow> char" where
  "digit_char d = char_of (48 + d)"

fun show_nat :: "nat \<Rightarrow> string" where
  "show_nat n = (if n < 10 then [digit_char n] else show_nat (n div 10) @ [digit_char (n mod 10)])"

definition is_digit :: "char \<Rightarrow> bool" where
  "is_digit c \<longleftrightarrow> 48 \<le> (of_char c :: nat) \<and> (of_char c :: nat) \<le> 57"

definition digit_val :: "char \<Rightarrow> nat" where
  "digit_val c = (of_char c :: nat) - 48"

text \<open>Reading a run of digits back, most significant first.\<close>

fun digits_val :: "nat \<Rightarrow> string \<Rightarrow> nat" where
  "digits_val acc [] = acc"
| "digits_val acc (c # cs) = digits_val (10 * acc + digit_val c) cs"

subsection \<open>Joining with commas\<close>

fun join_comma :: "string list \<Rightarrow> string" where
  "join_comma [] = []"
| "join_comma [x] = x"
| "join_comma (x # y # xs) = x @ '','' @ join_comma (y # xs)"

subsection \<open>Lemmas\<close>

lemma distinct_keys_update [simp, intro]:
  "distinct_keys ps \<Longrightarrow> distinct_keys (AList.update k v ps)"
  by (simp add: distinct_update)

lemma distinct_keys_delete [simp, intro]:
  "distinct_keys ps \<Longrightarrow> distinct_keys (AList.delete k ps)"
  by (simp add: distinct_delete)

lemma map_of_update_same [simp]: "map_of (AList.update k v ps) k = Some v"
  by (simp add: update_conv')

lemma map_of_update_other [simp]:
  "k' \<noteq> k \<Longrightarrow> map_of (AList.update k v ps) k' = map_of ps k'"
  by (simp add: update_conv')

lemma map_of_delete_same [simp]: "map_of (AList.delete k ps) k = None"
  by (simp add: delete_conv')

lemma sum_list_map_filter_le:
  fixes f :: "'a \<Rightarrow> nat"
  shows "sum_list (map f (filter P xs)) \<le> sum_list (map f xs)"
  by (induction xs) auto

lemma update_id_if_same:
  "map_of ps k = Some v \<Longrightarrow> AList.update k v ps = ps"
  by (rule update_triv)

declare show_nat.simps [simp del]

lemma of_char_digit_char [simp]: "d < 10 \<Longrightarrow> (of_char (digit_char d) :: nat) = 48 + d"
  by (simp add: digit_char_def)

lemma is_digit_digit_char [simp]: "d < 10 \<Longrightarrow> is_digit (digit_char d)"
  by (simp add: is_digit_def)

lemma digit_val_digit_char [simp]: "d < 10 \<Longrightarrow> digit_val (digit_char d) = d"
  by (simp add: digit_val_def)

lemma digit_char_zero_iff: "d < 10 \<Longrightarrow> digit_char d = CHR ''0'' \<longleftrightarrow> d = 0"
proof -
  assume d: "d < 10"
  have "digit_char d = CHR ''0'' \<longleftrightarrow> (of_char (digit_char d) :: nat) = of_char (CHR ''0'')"
    by (simp only: of_char_eq_iff)
  with d show ?thesis by simp
qed

lemma digit_char_0 [simp]: "digit_char 0 = CHR ''0''"
  using digit_char_zero_iff [of 0] by simp

lemma show_nat_0 [simp]: "show_nat 0 = ''0''"
  by (simp add: show_nat.simps)

lemma show_nat_nonempty [simp]: "show_nat n \<noteq> []"
  by (subst show_nat.simps) simp

lemma show_nat_digits: "\<forall>c \<in> set (show_nat n). is_digit c"
proof (induction n rule: show_nat.induct)
  case (1 n)
  then show ?case by (subst show_nat.simps) auto
qed

lemma digits_val_append:
  "digits_val acc (xs @ ys) = digits_val (digits_val acc xs) ys"
  by (induction xs arbitrary: acc) auto

lemma digits_val_show_nat: "digits_val acc (show_nat n) = 10 ^ length (show_nat n) * acc + n"
proof (induction n arbitrary: acc rule: show_nat.induct)
  case (1 n)
  show ?case
  proof (cases "n < 10")
    case True
    then show ?thesis by (subst (1 2) show_nat.simps) simp
  next
    case False
    then have eq: "show_nat n = show_nat (n div 10) @ [digit_char (n mod 10)]"
      by (subst show_nat.simps) simp
    from False "1.IH" have "digits_val acc (show_nat (n div 10)) =
        10 ^ length (show_nat (n div 10)) * acc + n div 10" by simp
    then show ?thesis
      by (simp add: eq digits_val_append algebra_simps)
  qed
qed

lemma show_nat_leading: "n \<noteq> 0 \<Longrightarrow> hd (show_nat n) \<noteq> CHR ''0''"
proof (induction n rule: show_nat.induct)
  case (1 n)
  show ?case
  proof (cases "n < 10")
    case True
    with "1.prems" show ?thesis
      by (subst show_nat.simps) (simp add: digit_char_zero_iff)
  next
    case False
    with "1.IH" show ?thesis
      by (subst show_nat.simps) simp
  qed
qed

end
