(* ===== verification/JS_Value.thy ===== *)
theory JS_Value
  imports JS_Prelude
begin

text \<open>
  The JavaScript values the service handles, and the parts of ECMAScript's semantics
  the source relies on: \<open>ToBoolean\<close> (the truthiness behind \<open>&&\<close>, \<open>||\<close> and
  \<open>if\<close>), the operand-returning \<open>||\<close>, property reads \<open>o.p\<close> (a TypeError on
  \<open>null\<close> and \<open>undefined\<close>), the order in which an ordinary object keeps its own
  properties, and settled promises. Numbers are modelled by their integral values and
  strings by 8-bit code units; functions, symbols and prototype chains are not modelled
  (none of the property names the service reads exists on a built-in prototype).
\<close>

datatype jsval =
    JUndefined
  | JNull
  | JBool bool
  | JNum int
  | JStr string
  | JArr "jsval list"
  | JObj "(string \<times> jsval) list"

text \<open>A value thrown by \<open>throw\<close> or by the engine is again a value.\<close>

datatype 'a settled = Fulfilled 'a | Rejected jsval

subsection \<open>ToBoolean and the logical operators\<close>

fun js_truthy :: "jsval \<Rightarrow> bool" where
  "js_truthy JUndefined = False"
| "js_truthy JNull = False"
| "js_truthy (JBool b) = b"
| "js_truthy (JNum n) = (n \<noteq> 0)"
| "js_truthy (JStr s) = (s \<noteq> [])"
| "js_truthy (JArr vs) = True"
| "js_truthy (JObj ps) = True"

text \<open>\<open>a || b\<close> returns its first operand when that is truthy, else its second.\<close>

definition js_or :: "jsval \<Rightarrow> jsval \<Rightarrow> jsval" where
  "js_or a b = (if js_truthy a then a else b)"

fun is_nullish :: "jsval \<Rightarrow> bool" where
  "is_nullish JUndefined = True"
| "is_nullish JNull = True"
| "is_nullish v = False"

subsection \<open>Errors the engine throws\<close>

definition mk_error :: "string \<Rightarrow> string \<Rightarrow> jsval" where
  "mk_error name msg = JObj [(''name'', JStr name), (''message'', JStr msg)]"

definition quoted :: "string \<Rightarrow> string" where
  "quoted k = CHR 0x27 # k @ [CHR 0x27]"

definition read_error :: "string \<Rightarrow> string \<Rightarrow> jsval" where
  "read_error base k =
     mk_error ''TypeError'' (''Cannot read properties of '' @ base @ '' (reading '' @ quoted k @ '')'')"

subsection \<open>Array indices\<close>

text \<open>
  A property key is an array index when it is the canonical decimal form of a number
  below \<open>2^32 - 1\<close>: digits only, no leading zero except the key \<open>0\<close> itself.
\<close>

definition array_index :: "string \<Rightarrow> nat option" where
  "array_index k =
     (if k \<noteq> [] \<and> list_all is_digit k \<and> (k = ''0'' \<or> hd k \<noteq> CHR ''0'')
         \<and> digits_val 0 k < 2 ^ 32 - 1
      then Some (digits_val 0 k) else None)"

subsection \<open>Property read\<close>

text \<open>
  \<open>o.k\<close>: own data properties of objects, the \<open>length\<close> and index properties of
  strings and arrays, \<open>undefined\<close> for every other key, and a TypeError when
  \<open>o\<close> is \<open>null\<close> or \<open>undefined\<close>.
\<close>

fun get_prop :: "jsval \<Rightarrow> string \<Rightarrow> jsval + jsval" where
  "get_prop JUndefined k = Inl (read_error ''undefined'' k)"
| "get_prop JNull k = Inl (read_error ''null'' k)"
| "get_prop (JBool b) k = Inr JUndefined"
| "get_prop (JNum n) k = Inr JUndefined"
| "get_prop (JStr s) k =
     Inr (if k = ''length'' then JNum (int (length s))
          else (case array_index k of
                  Some i \<Rightarrow> if i < length s then JStr [s ! i] else JUndefined
                | None \<Rightarrow> JUndefined))"
| "get_prop (JArr vs) k =
     Inr (if k = ''length'' then JNum (int (length vs))
          else (case array_index k of
                  Some i \<Rightarrow> if i < length vs then vs ! i else JUndefined
                | None \<Rightarrow> JUndefined))"
| "get_prop (JObj ps) k = Inr (case map_of ps k of Some v \<Rightarrow> v | None \<Rightarrow> JUndefined)"

text \<open>The value of a read that cannot throw (its base is not nullish).\<close>

definition prop_of :: "jsval \<Rightarrow> string \<Rightarrow> jsval" where
  "prop_of v k = (case get_prop v k of Inr r \<Rightarrow> r | Inl e \<Rightarrow> JUndefined)"

subsection \<open>Own-property order of ordinary objects\<close>

text \<open>
  An ordinary object lists its array-index keys first, in ascending numeric order, and
  then its other string keys in the order they were created
  (\<open>OrdinaryOwnPropertyKeys\<close>). Defining a property that exists replaces its value in
  place; a new index key goes to its numeric position, a new other key to the end.
  \<open>obj_put\<close> is that [[DefineOwnProperty]] as \<open>JSON.parse\<close> uses it.
\<close>

fun insert_index :: "nat \<Rightarrow> string \<Rightarrow> jsval \<Rightarrow> (string \<times> jsval) list \<Rightarrow> (string \<times> jsval) list" where
  "insert_index i k v [] = [(k, v)]"
| "insert_index i k v ((k', v') # ps) =
     (case array_index k' of
        Some j \<Rightarrow> if j < i then (k', v') # insert_index i k v ps else (k, v) # (k', v') # ps
      | None \<Rightarrow> (k, v) # (k', v') # ps)"

definition obj_put :: "string \<Rightarrow> jsval \<Rightarrow> (string \<times> jsval) list \<Rightarrow> (string \<times> jsval) list" where
  "obj_put k v ps =
     (if map_of ps k \<noteq> None then AList.update k v ps
      else (case array_index k of
              Some i \<Rightarrow> insert_index i k v ps
            | None \<Rightarrow> ps @ [(k, v)]))"

text \<open>The key order an ordinary object keeps.\<close>

fun key_order :: "(string \<times> jsval) list \<Rightarrow> bool" where
  "key_order [] = True"
| "key_order ((k, v) # ps) =
     (case array_index k of
        None \<Rightarrow> list_all (\<lambda>(k', v'). array_index k' = None) ps
      | Some i \<Rightarrow> key_order ps \<and>
          (case ps of [] \<Rightarrow> True
           | (k', v') # qs \<Rightarrow> (case array_index k' of None \<Rightarrow> True | Some j \<Rightarrow> i < j)))"

subsection \<open>Lemmas\<close>

lemma truthy_not_nullish [simp]: "js_truthy v \<Longrightarrow> \<not> is_nullish v"
  by (cases v) auto

lemma get_prop_nullish: "is_nullish v \<longleftrightarrow> (\<exists>e. get_prop v k = Inl e)"
  by (cases v) auto

lemma get_prop_not_nullish [simp]: "\<not> is_nullish v \<Longrightarrow> get_prop v k = Inr (prop_of v k)"
  by (cases v) (auto simp: prop_of_def)

lemma prop_of_obj [simp, js_simps]:
  "prop_of (JObj ps) k = (case map_of ps k of Some v \<Rightarrow> v | None \<Rightarrow> JUndefined)"
  by (simp add: prop_of_def)

end
