(* ===== verification/JSON_Codec.thy ===== *)
theory JSON_Codec
  imports JS_Value
begin

text \<open>
  \<open>JSON.stringify\<close> and \<open>JSON.parse\<close> as ECMAScript specifies them
  (SerializeJSONProperty, QuoteJSONString, and the JSON grammar of ECMA-404), on the
  value model of \<^theory_text>\<open>JS_Value\<close>. The service stores the session record with
  \<open>JSON.stringify\<close> and reads it back with \<open>JSON.parse\<close>; the theorems here are
  the round trip that makes that work and the fact that the parser always returns.

  Two limits of the value model show in the parser: a number with a fraction or an
  exponent, and a \<open>\u\<close> escape above 0xFF, have no value in the model and
  are rejected. \<open>JSON.stringify\<close> never produces either from a modelled value.
\<close>

subsection \<open>Serialisation\<close>

definition hex_digit :: "nat \<Rightarrow> char" where
  "hex_digit d = (if d < 10 then digit_char d else char_of (87 + d))"

text \<open>QuoteJSONString, one code unit at a time.\<close>

definition quote_char :: "char \<Rightarrow> string" where
  "quote_char c =
     (if c = CHR 0x08 then [CHR 0x5C, CHR ''b'']
      else if c = CHR 0x09 then [CHR 0x5C, CHR ''t'']
      else if c = CHR 0x0A then [CHR 0x5C, CHR ''n'']
      else if c = CHR 0x0C then [CHR 0x5C, CHR ''f'']
      else if c = CHR 0x0D then [CHR 0x5C, CHR ''r'']
      else if c = CHR 0x22 then [CHR 0x5C, CHR 0x22]
      else if c = CHR 0x5C then [CHR 0x5C, CHR 0x5C]
      else if (of_char c :: nat) < 32 then
        [CHR 0x5C, CHR ''u'', CHR ''0'', CHR ''0'',
         hex_digit ((of_char c :: nat) div 16), hex_digit ((of_char c :: nat) mod 16)]
      else [c])"

definition quote_json :: "string \<Rightarrow> string" where
  "quote_json s = CHR 0x22 # concat (map quote_char s) @ [CHR 0x22]"

definition show_int :: "int \<Rightarrow> string" where
  "show_int n = (if n < 0 then CHR ''-'' # show_nat (nat (- n)) else show_nat (nat n))"

text \<open>
  SerializeJSONProperty: \<open>None\<close> is the \<open>undefined\<close> that \<open>JSON.stringify\<close>
  returns for \<open>undefined\<close>. An array writes \<open>null\<close> for such an element; an object
  leaves such a member out.
\<close>

fun json_str :: "jsval \<Rightarrow> string option"
  and json_items :: "jsval list \<Rightarrow> string list"
  and json_members :: "(string \<times> jsval) list \<Rightarrow> string list" where
  "json_str JUndefined = None"
| "json_str JNull = Some ''null''"
| "json_str (JBool b) = Some (if b then ''true'' else ''false'')"
| "json_str (JNum n) = Some (show_int n)"
| "json_str (JStr s) = Some (quote_json s)"
| "json_str (JArr vs) = Some (CHR ''['' # join_comma (json_items vs) @ '']'')"
| "json_str (JObj ps) = Some (CHR ''{'' # join_comma (json_members ps) @ ''}'')"
| "json_items [] = []"
| "json_items (v # vs) = (case json_str v of None \<Rightarrow> ''null'' | Some s \<Rightarrow> s) # json_items vs"
| "json_members [] = []"
| "json_members ((k, v) # ps) =
     (case json_str v of
        None \<Rightarrow> json_members ps
      | Some s \<Rightarrow> (quote_json k @ CHR '':'' # s) # json_members ps)"

definition json_stringify :: "jsval \<Rightarrow> string option" where
  "json_stringify v = json_str v"

subsection \<open>Parsing\<close>

text \<open>JSON white space: tab, line feed, carriage return, space.\<close>

definition is_ws :: "char \<Rightarrow> bool" where
  "is_ws c \<longleftrightarrow> c = CHR 0x09 \<or> c = CHR 0x0A \<or> c = CHR 0x0D \<or> c = CHR 0x20"

fun skip_ws :: "string \<Rightarrow> string" where
  "skip_ws [] = []"
| "skip_ws (c # cs) = (if is_ws c then skip_ws cs else c # cs)"

definition hex_val :: "char \<Rightarrow> nat option" where
  "hex_val c =
     (let n = (of_char c :: nat) in
      if 48 \<le> n \<and> n \<le> 57 then Some (n - 48)
      else if 97 \<le> n \<and> n \<le> 102 then Some (n - 87)
      else if 65 \<le> n \<and> n \<le> 70 then Some (n - 55)
      else None)"

fun hex4 :: "string \<Rightarrow> nat option" where
  "hex4 (a # b # c # d # cs) =
     (case (hex_val a, hex_val b, hex_val c, hex_val d) of
        (Some w, Some x, Some y, Some z) \<Rightarrow> Some (((w * 16 + x) * 16 + y) * 16 + z)
      | _ \<Rightarrow> None)"
| "hex4 cs = None"

text \<open>The one-character escapes of a JSON string.\<close>

definition simple_escape :: "char \<Rightarrow> char option" where
  "simple_escape e =
     (if e = CHR 0x22 then Some (CHR 0x22)
      else if e = CHR 0x5C then Some (CHR 0x5C)
      else if e = CHR ''/'' then Some (CHR ''/'')
      else if e = CHR ''b'' then Some (CHR 0x08)
      else if e = CHR ''f'' then Some (CHR 0x0C)
      else if e = CHR ''n'' then Some (CHR 0x0A)
      else if e = CHR ''r'' then Some (CHR 0x0D)
      else if e = CHR ''t'' then Some (CHR 0x09)
      else None)"

definition cons_fst :: "char \<Rightarrow> (string \<times> string) option \<Rightarrow> (string \<times> string) option" where
  "cons_fst c r = map_option (\<lambda>(s, rest). (c # s, rest)) r"

text \<open>The body of a string literal, after its opening quote: the decoded string and the
  input after the closing quote, or \<open>None\<close> for a syntax error.\<close>

function parse_string :: "string \<Rightarrow> (string \<times> string) option" where
  "parse_string [] = None"
| "parse_string (c # cs) =
     (if c = CHR 0x22 then Some ([], cs)
      else if c = CHR 0x5C then
        (case cs of
           [] \<Rightarrow> None
         | e # rest \<Rightarrow>
             if e = CHR ''u'' then
               (case hex4 rest of
                  None \<Rightarrow> None
                | Some n \<Rightarrow> if n < 256 then cons_fst (char_of n) (parse_string (drop 4 rest)) else None)
             else
               (case simple_escape e of
                  None \<Rightarrow> None
                | Some ch \<Rightarrow> cons_fst ch (parse_string rest)))
      else if (of_char c :: nat) < 32 then None
      else cons_fst c (parse_string cs))"
  by pat_completeness auto
termination
  by (relation "measure length") auto

text \<open>
  A number: an optional minus, then \<open>0\<close> or a digit run without a leading zero. A
  fraction or exponent part is outside the integral number model and rejected.
\<close>

definition parse_digits :: "string \<Rightarrow> (nat \<times> string) option" where
  "parse_digits s =
     (case s of
        [] \<Rightarrow> None
      | d # ds \<Rightarrow>
          if \<not> is_digit d then None
          else
            (let digs = (if d = CHR ''0'' then [d] else d # takeWhile is_digit ds);
                 rest = drop (length digs) s
             in if rest \<noteq> [] \<and> hd rest \<in> {CHR ''.'', CHR ''e'', CHR ''E''} then None
                else Some (digits_val 0 digs, rest)))"

definition parse_number :: "string \<Rightarrow> (jsval \<times> string) option" where
  "parse_number s =
     (case s of
        [] \<Rightarrow> None
      | c # cs \<Rightarrow>
          if c = CHR ''-'' then map_option (\<lambda>(m, r). (JNum (- int m), r)) (parse_digits cs)
          else map_option (\<lambda>(m, r). (JNum (int m), r)) (parse_digits s))"

definition parse_literal :: "string \<Rightarrow> (jsval \<times> string) option" where
  "parse_literal s =
     (if take 4 s = ''null'' then Some (JNull, drop 4 s)
      else if take 4 s = ''true'' then Some (JBool True, drop 4 s)
      else if take 5 s = ''false'' then Some (JBool False, drop 5 s)
      else None)"

text \<open>
  The recursive descent over values, array elements and object members. Each call
  spends one unit of fuel; \<open>POutOfFuel\<close> is kept apart from a syntax error so that
  the theorem that the fuel \<open>json_parse\<close> gives is always enough says
  something.
\<close>

datatype 'a presult = PDone 'a string | PError | POutOfFuel

fun parse_value :: "nat \<Rightarrow> string \<Rightarrow> jsval presult"
  and parse_elems :: "nat \<Rightarrow> jsval list \<Rightarrow> string \<Rightarrow> jsval presult"
  and parse_members :: "nat \<Rightarrow> (string \<times> jsval) list \<Rightarrow> string \<Rightarrow> jsval presult" where
  "parse_value 0 s = POutOfFuel"
| "parse_value (Suc n) s =
     (case skip_ws s of
        [] \<Rightarrow> PError
      | c # cs \<Rightarrow>
          if c = CHR ''['' then
            (case skip_ws cs of
               [] \<Rightarrow> PError
             | c' # cs' \<Rightarrow> if c' = CHR '']'' then PDone (JArr []) cs' else parse_elems n [] cs)
          else if c = CHR ''{'' then
            (case skip_ws cs of
               [] \<Rightarrow> PError
             | c' # cs' \<Rightarrow> if c' = CHR ''}'' then PDone (JObj []) cs' else parse_members n [] cs)
          else if c = CHR 0x22 then
            (case parse_string cs of None \<Rightarrow> PError | Some (str, r) \<Rightarrow> PDone (JStr str) r)
          else if c = CHR ''-'' \<or> is_digit c then
            (case parse_number (c # cs) of None \<Rightarrow> PError | Some (v, r) \<Rightarrow> PDone v r)
          else
            (case parse_literal (c # cs) of None \<Rightarrow> PError | Some (v, r) \<Rightarrow> PDone v r))"
| "parse_elems 0 acc s = POutOfFuel"
| "parse_elems (Suc n) acc s =
     (case parse_value n s of
        PDone v r \<Rightarrow>
          (case skip_ws r of
             [] \<Rightarrow> PError
           | c # r' \<Rightarrow>
               if c = CHR '','' then parse_elems n (acc @ [v]) r'
               else if c = CHR '']'' then PDone (JArr (acc @ [v])) r'
               else PError)
      | PError \<Rightarrow> PError
      | POutOfFuel \<Rightarrow> POutOfFuel)"
| "parse_members 0 acc s = POutOfFuel"
| "parse_members (Suc n) acc s =
     (case skip_ws s of
        [] \<Rightarrow> PError
      | c # cs \<Rightarrow>
          if c \<noteq> CHR 0x22 then PError
          else
            (case parse_string cs of
               None \<Rightarrow> PError
             | Some (k, r1) \<Rightarrow>
                 (case skip_ws r1 of
                    [] \<Rightarrow> PError
                  | c1 # r2 \<Rightarrow>
                      if c1 \<noteq> CHR '':'' then PError
                      else
                        (case parse_value n r2 of
                           PDone v r3 \<Rightarrow>
                             (case skip_ws r3 of
                                [] \<Rightarrow> PError
                              | c3 # r4 \<Rightarrow>
                                  if c3 = CHR '','' then parse_members n (obj_put k v acc) r4
                                  else if c3 = CHR ''}'' then PDone (JObj (obj_put k v acc)) r4
                                  else PError)
                         | PError \<Rightarrow> PError
                         | POutOfFuel \<Rightarrow> POutOfFuel))))"

definition json_fuel :: "string \<Rightarrow> nat" where
  "json_fuel s = 2 * length s + 1"

definition json_syntax_error :: jsval where
  "json_syntax_error = mk_error ''SyntaxError'' ''Unexpected token in JSON''"

text \<open>\<open>JSON.parse(text)\<close>: one value, then nothing but white space.\<close>

definition json_parse :: "string \<Rightarrow> jsval + jsval" where
  "json_parse s =
     (case parse_value (json_fuel s) s of
        PDone v r \<Rightarrow> if skip_ws r = [] then Inr v else Inl json_syntax_error
      | PError \<Rightarrow> Inl json_syntax_error
      | POutOfFuel \<Rightarrow> Inl json_syntax_error)"

end
