(* ===== verification/JSON_Roundtrip.thy ===== *)
theory JSON_Roundtrip
  imports JSON_Codec
begin

text \<open>
  The correctness of the codec of \<^theory_text>\<open>JSON_Codec\<close>: parsing the text
  \<open>JSON.stringify\<close> writes for any JSON value gives the value back
  (\<open>json_parse_stringify\<close>), including the key order of objects, which
  \<open>JSON.parse\<close> rebuilds property by property; and the parser never runs out of the
  fuel \<open>json_parse\<close> gives it (\<open>json_parse_returns\<close>), because every successful
  step consumes input. The proofs go value by value, with the text after the value
  generalised (\<open>t @ r\<close>), as a compiler-correctness proof generalises the stack.
\<close>

subsection \<open>Vocabulary of the round-trip proofs\<close>

text \<open>
  What may follow a number (nothing that would extend it), what may follow a value
  inside a document, the fuel a value needs, the first character of a serialised
  value, and the object that a run of \<open>obj_put\<close> builds.
\<close>

fun num_stop :: "string \<Rightarrow> bool" where
  "num_stop [] = True"
| "num_stop (c # cs) = (\<not> is_digit c \<and> c \<notin> {CHR ''.'', CHR ''e'', CHR ''E''})"

text \<open>
  JSON data: the values \<open>JSON.parse\<close> produces. No \<open>undefined\<close> anywhere, and every
  object has distinct keys in the order of an ordinary object.
\<close>

fun json_value :: "jsval \<Rightarrow> bool" where
  "json_value JUndefined = False"
| "json_value (JArr vs) = list_all json_value vs"
| "json_value (JObj ps) = (distinct_keys ps \<and> key_order ps \<and> list_all (\<lambda>(k, v). json_value v) ps)"
| "json_value v = True"

fun jsize :: "jsval \<Rightarrow> nat"
  and jsizes :: "jsval list \<Rightarrow> nat"
  and jsizes_m :: "(string \<times> jsval) list \<Rightarrow> nat" where
  "jsize (JArr vs) = Suc (jsizes vs)"
| "jsize (JObj ps) = Suc (jsizes_m ps)"
| "jsize v = 1"
| "jsizes [] = 0"
| "jsizes (v # vs) = Suc (jsize v + jsizes vs)"
| "jsizes_m [] = 0"
| "jsizes_m ((k, v) # ps) = Suc (jsize v + jsizes_m ps)"

fun val_stop :: "string \<Rightarrow> bool" where
  "val_stop [] = True"
| "val_stop (c # cs) = (c = CHR '','' \<or> c = CHR '']'' \<or> c = CHR ''}'')"

definition start_ok :: "char \<Rightarrow> bool" where
  "start_ok c \<longleftrightarrow> \<not> is_ws c \<and> c \<noteq> CHR '']'' \<and> c \<noteq> CHR ''}''"

definition obj_build :: "(string \<times> jsval) list \<Rightarrow> (string \<times> jsval) list \<Rightarrow> (string \<times> jsval) list" where
  "obj_build acc ps = foldl (\<lambda>a (k, v). obj_put k v a) acc ps"

abbreviation value_roundtrips :: "jsval \<Rightarrow> bool" where
  "value_roundtrips v \<equiv> \<forall>n t r. json_str v = Some t \<longrightarrow> jsize v < n \<longrightarrow> val_stop r \<longrightarrow>
      parse_value n (t @ r) = PDone v r"

abbreviation size_bounded :: "jsval \<Rightarrow> bool" where
  "size_bounded v \<equiv> \<forall>t. json_str v = Some t \<longrightarrow> jsize v \<le> length t"

subsection \<open>Strings, numbers and literals\<close>

lemma hex_val_hex_digit [simp]: "d < 16 \<Longrightarrow> hex_val (hex_digit d) = Some d"
  by (auto simp: hex_val_def hex_digit_def Let_def)

lemma hex_val_zero [simp]: "hex_val (CHR ''0'') = Some 0"
  by (simp add: hex_val_def)

lemma hex4_control:
  "(n::nat) < 32 \<Longrightarrow> hex4 (CHR ''0'' # CHR ''0'' # hex_digit (n div 16) # hex_digit (n mod 16) # r) = Some n"
  by simp

lemma parse_string_quote_char:
  "parse_string (quote_char c @ r) = cons_fst c (parse_string r)"
proof -
  let ?n = "of_char c :: nat"
  have lt: "?n < 32 \<Longrightarrow> ?n div 16 < 16" by simp
  show ?thesis
    unfolding quote_char_def
    by (auto simp: simple_escape_def hex4_control lt)
qed

lemma parse_string_quote:
  "parse_string (concat (map quote_char s) @ CHR 0x22 # r) = Some (s, r)"
  by (induction s) (simp_all add: parse_string_quote_char cons_fst_def)

lemma takeWhile_digits_stop:
  assumes "\<forall>c \<in> set xs. is_digit c" and "num_stop r"
  shows "takeWhile is_digit (xs @ r) = xs"
proof -
  have "takeWhile is_digit r = []" using assms(2) by (cases r) auto
  with assms(1) show ?thesis by (simp add: takeWhile_append2)
qed

lemma show_nat_cons: "\<exists>d ds. show_nat m = d # ds"
  using show_nat_nonempty by (cases "show_nat m") auto

lemma parse_digits_show_nat:
  assumes stop: "num_stop r"
  shows "parse_digits (show_nat m @ r) = Some (m, r)"
proof -
  obtain d ds where sn: "show_nat m = d # ds" using show_nat_cons by blast
  have digs: "\<forall>c \<in> set (d # ds). is_digit c" using show_nat_digits [of m] sn by simp
  have val: "digits_val 0 (show_nat m) = m" by (simp add: digits_val_show_nat)
  have rest_ok: "\<not> (r \<noteq> [] \<and> hd r \<in> {CHR ''.'', CHR ''e'', CHR ''E''})"
    using stop by (cases r) auto
  show ?thesis
  proof (cases "d = CHR ''0''")
    case True
    then have "m = 0" using show_nat_leading [of m] sn by fastforce
    with True sn rest_ok show ?thesis
      by (simp add: parse_digits_def is_digit_def digit_val_def)
  next
    case False
    have tw: "takeWhile is_digit (ds @ r) = ds"
      using digs stop by (intro takeWhile_digits_stop) auto
    from digs have "is_digit d" by simp
    with False sn tw rest_ok val show ?thesis
      by (simp add: parse_digits_def Let_def)
  qed
qed

lemma show_nat_hd_not_minus: "\<exists>d ds. show_nat m = d # ds \<and> is_digit d"
  using show_nat_cons [of m] show_nat_digits [of m] by fastforce

lemma parse_show_int:
  assumes "num_stop r"
  shows "parse_number (show_int n @ r) = Some (JNum n, r)"
proof (cases "n < 0")
  case True
  with assms show ?thesis
    by (simp add: show_int_def parse_number_def parse_digits_show_nat)
next
  case False
  obtain d ds where sn: "show_nat (nat n) = d # ds" and "is_digit d"
    using show_nat_hd_not_minus by blast
  then have "d \<noteq> CHR ''-''" by (auto simp: is_digit_def)
  with False sn assms parse_digits_show_nat [OF assms, of "nat n"] show ?thesis
    by (simp add: show_int_def parse_number_def)
qed

lemma val_stop_num_stop: "val_stop r \<Longrightarrow> num_stop r"
  by (cases r) (auto simp: is_digit_def)

lemma is_ws_simps [simp]:
  "\<not> is_ws CHR ''[''" "\<not> is_ws CHR ''{''" "\<not> is_ws CHR 0x22" "\<not> is_ws CHR '',''"
  "\<not> is_ws CHR '']''" "\<not> is_ws CHR ''}''" "\<not> is_ws CHR '':''" "\<not> is_ws CHR ''-''"
  "\<not> is_ws CHR ''n''" "\<not> is_ws CHR ''t''" "\<not> is_ws CHR ''f''"
  by (simp_all add: is_ws_def)

lemma is_digit_not_ws: "is_digit c \<Longrightarrow> \<not> is_ws c"
  by (auto simp: is_digit_def is_ws_def)

lemma json_value_str: "json_value v \<Longrightarrow> \<exists>t. json_str v = Some t"
  by (cases v) auto

lemma show_int_shape: "\<exists>c cs. show_int n = c # cs \<and> (c = CHR ''-'' \<or> is_digit c)"
  using show_nat_hd_not_minus [of "nat (- n)"] show_nat_hd_not_minus [of "nat n"]
  by (auto simp: show_int_def)

lemma not_digit_simps:
  "\<not> is_digit CHR ''-''" "\<not> is_digit CHR '']''" "\<not> is_digit CHR ''}''"
  "\<not> is_digit CHR 0x09" "\<not> is_digit CHR 0x0A" "\<not> is_digit CHR 0x0D" "\<not> is_digit CHR 0x20"
  by (simp_all add: is_digit_def)

lemma digit_shape: "is_digit c \<Longrightarrow> \<not> is_ws c \<and> c \<noteq> CHR '']'' \<and> c \<noteq> CHR ''}''"
  unfolding is_ws_def using not_digit_simps(2-7) by metis

lemma start_ok_simps:
  "start_ok CHR ''[''" "start_ok CHR ''{''" "start_ok CHR 0x22" "start_ok CHR ''-''"
  "start_ok CHR ''n''" "start_ok CHR ''t''" "start_ok CHR ''f''"
  by (simp_all add: start_ok_def)

lemma start_ok_show_int: "show_int n \<noteq> [] \<and> start_ok (hd (show_int n))"
proof -
  obtain c cs where sh: "show_int n = c # cs" and cd: "c = CHR ''-'' \<or> is_digit c"
    using show_int_shape by blast
  from cd have "start_ok c"
  proof
    assume "c = CHR ''-''"
    then show ?thesis by (simp only: start_ok_simps)
  next
    assume "is_digit c"
    then show ?thesis unfolding start_ok_def by (rule digit_shape)
  qed
  with sh show ?thesis by simp
qed

lemma json_str_shape_case:
  "case json_str v of None \<Rightarrow> True | Some t \<Rightarrow> t \<noteq> [] \<and> start_ok (hd t)"
  by (cases v) (simp_all add: start_ok_simps start_ok_show_int quote_json_def)

lemma json_str_shape: "json_str v = Some t \<Longrightarrow> t \<noteq> [] \<and> start_ok (hd t)"
  using json_str_shape_case [of v] by simp

lemma skip_ws_start_ok: "t \<noteq> [] \<and> start_ok (hd t) \<Longrightarrow> skip_ws (t @ r) = t @ r"
  by (cases t) (simp_all add: start_ok_def)

lemma skip_ws_json_str: "json_str v = Some t \<Longrightarrow> skip_ws (t @ r) = t @ r"
  by (rule skip_ws_start_ok) (rule json_str_shape)

lemma parse_literal_simps:
  "parse_literal (CHR ''n'' # CHR ''u'' # CHR ''l'' # CHR ''l'' # r) = Some (JNull, r)"
  "parse_literal (CHR ''t'' # CHR ''r'' # CHR ''u'' # CHR ''e'' # r) = Some (JBool True, r)"
  "parse_literal (CHR ''f'' # CHR ''a'' # CHR ''l'' # CHR ''s'' # CHR ''e'' # r) = Some (JBool False, r)"
  by (simp_all add: parse_literal_def)

lemma parse_elems_items:
  assumes "\<forall>v \<in> set vs. value_roundtrips v" and "vs \<noteq> []" and "list_all json_value vs"
    and "jsizes vs < n"
  shows "parse_elems n acc (join_comma (json_items vs) @ CHR '']'' # r) = PDone (JArr (acc @ vs)) r"
  using assms
proof (induction vs arbitrary: n acc)
  case Nil
  then show ?case by simp
next
  case (Cons v vs)
  obtain t where t: "json_str v = Some t" using Cons.prems(3) json_value_str by auto
  obtain m where n: "n = Suc m" using Cons.prems(4) by (cases n) auto
  have rt: "value_roundtrips v" using Cons.prems(1) by simp
  show ?case
  proof (cases vs)
    case Nil
    have "parse_value m (t @ CHR '']'' # r) = PDone v (CHR '']'' # r)"
      using rt t Cons.prems(4) n Nil by simp
    then show ?thesis using t n Nil by simp
  next
    case (Cons w ws)
    obtain t' where t': "json_str w = Some t'" using Cons.prems(3) json_value_str \<open>vs = w # ws\<close> by auto
    have join: "join_comma (json_items (v # vs)) = t @ CHR '','' # join_comma (json_items vs)"
      using t t' \<open>vs = w # ws\<close> by simp
    have "parse_value m (t @ CHR '','' # join_comma (json_items vs) @ CHR '']'' # r) =
        PDone v (CHR '','' # join_comma (json_items vs) @ CHR '']'' # r)"
      using rt t Cons.prems(4) n by simp
    moreover have "parse_elems m (acc @ [v]) (join_comma (json_items vs) @ CHR '']'' # r) =
        PDone (JArr ((acc @ [v]) @ vs)) r"
      using Cons.prems n \<open>vs = w # ws\<close> by (intro Cons.IH) auto
    ultimately show ?thesis using join n by simp
  qed
qed

lemma obj_build_simps [simp]:
  "obj_build acc [] = acc"
  "obj_build acc ((k, v) # ps) = obj_build (obj_put k v acc) ps"
  by (simp_all add: obj_build_def)

lemma skip_ws_quote_json [simp]: "skip_ws (quote_json k @ r) = quote_json k @ r"
  by (simp add: quote_json_def)

lemma parse_string_quote_json:
  "quote_json k @ r = CHR 0x22 # concat (map quote_char k) @ CHR 0x22 # r"
  by (simp add: quote_json_def)

lemma parse_member_head:
  assumes rt: "value_roundtrips v" and t: "json_str v = Some t" and n: "jsize v < m"
    and stop: "val_stop rest"
  shows "parse_members (Suc m) acc ((quote_json k @ CHR '':'' # t) @ rest) =
    (case skip_ws rest of
       [] \<Rightarrow> PError
     | c3 # r4 \<Rightarrow>
         if c3 = CHR '','' then parse_members m (obj_put k v acc) r4
         else if c3 = CHR ''}'' then PDone (JObj (obj_put k v acc)) r4
         else PError)"
proof -
  have pv: "parse_value m (t @ rest) = PDone v rest" using rt t n stop by simp
  have ps: "parse_string (concat (map quote_char k) @ CHR 0x22 # CHR '':'' # t @ rest) =
      Some (k, CHR '':'' # t @ rest)"
    by (rule parse_string_quote)
  show ?thesis
    by (simp add: parse_string_quote_json ps pv)
qed

lemma parse_members_members:
  assumes "\<forall>(k, v) \<in> set ps. value_roundtrips v" and "ps \<noteq> []"
    and "list_all (\<lambda>(k, v). json_value v) ps" and "jsizes_m ps < n"
  shows "parse_members n acc (join_comma (json_members ps) @ CHR ''}'' # r) =
    PDone (JObj (obj_build acc ps)) r"
  using assms
proof (induction ps arbitrary: n acc)
  case Nil
  then show ?case by simp
next
  case (Cons p ps)
  obtain k v where p: "p = (k, v)" by (cases p)
  obtain t where t: "json_str v = Some t" using Cons.prems(3) p json_value_str by auto
  obtain m where n: "n = Suc m" using Cons.prems(4) by (cases n) auto
  have rt: "value_roundtrips v" using Cons.prems(1) p by simp
  have sz: "jsize v < m" using Cons.prems(4) n p by simp
  show ?case
  proof (cases ps)
    case Nil
    have "parse_members (Suc m) acc ((quote_json k @ CHR '':'' # t) @ CHR ''}'' # r) =
        PDone (JObj (obj_put k v acc)) r"
      using parse_member_head [OF rt t sz] by simp
    then show ?thesis using t n Nil p by simp
  next
    case (Cons q qs)
    obtain k' v' where q: "q = (k', v')" by (cases q)
    obtain t' where t': "json_str v' = Some t'"
      using Cons.prems(3) json_value_str \<open>ps = q # qs\<close> q by auto
    have join: "join_comma (json_members (p # ps)) =
        (quote_json k @ CHR '':'' # t) @ CHR '','' # join_comma (json_members ps)"
      using t t' \<open>ps = q # qs\<close> p q by simp
    have "parse_members m (obj_put k v acc) (join_comma (json_members ps) @ CHR ''}'' # r) =
        PDone (JObj (obj_build (obj_put k v acc) ps)) r"
      using Cons.prems n p \<open>ps = q # qs\<close> by (intro Cons.IH) auto
    moreover have "parse_members (Suc m) acc
        ((quote_json k @ CHR '':'' # t) @ CHR '','' # join_comma (json_members ps) @ CHR ''}'' # r) =
        parse_members m (obj_put k v acc) (join_comma (json_members ps) @ CHR ''}'' # r)"
      using parse_member_head [OF rt t sz] by simp
    ultimately show ?thesis using join n p by simp
  qed
qed

subsection \<open>Objects rebuilt in key order\<close>

lemma key_order_snoc: "key_order (xs @ [x]) \<Longrightarrow> key_order xs"
proof (induction xs)
  case Nil
  then show ?case by simp
next
  case (Cons p xs)
  obtain k v where p: "p = (k, v)" by (cases p)
  show ?case
  proof (cases "array_index k")
    case None
    with Cons.prems p show ?thesis by simp
  next
    case (Some i)
    with Cons.prems p have "key_order (xs @ [x])" by simp
    then have "key_order xs" by (rule Cons.IH)
    with Cons.prems p Some show ?thesis by (cases xs) auto
  qed
qed

lemma key_order_before_index:
  "key_order (xs @ [(k, v)]) \<Longrightarrow> array_index k = Some i \<Longrightarrow>
   list_all (\<lambda>(k', v'). \<exists>j. array_index k' = Some j \<and> j < i) xs"
proof (induction xs)
  case Nil
  then show ?case by simp
next
  case (Cons p xs)
  obtain k0 v0 where p: "p = (k0, v0)" by (cases p)
  show ?case
  proof (cases "array_index k0")
    case None
    with Cons.prems p show ?thesis by (simp add: list_all_iff)
  next
    case (Some i0)
    with Cons.prems p have ko: "key_order (xs @ [(k, v)])" by simp
    then have IH: "list_all (\<lambda>(k', v'). \<exists>j. array_index k' = Some j \<and> j < i) xs"
      using Cons.prems(2) by (rule Cons.IH)
    have "i0 < i"
    proof (cases xs)
      case Nil
      with Cons.prems p Some show ?thesis by simp
    next
      case (Cons q qs)
      obtain k1 v1 where q: "q = (k1, v1)" by (cases q)
      from IH Cons q obtain j1 where j1: "array_index k1 = Some j1" "j1 < i" by auto
      with Cons.prems(1) p Some Cons q have "i0 < j1" by simp
      with j1 show ?thesis by simp
    qed
    with IH p Some show ?thesis by simp
  qed
qed

lemma insert_index_end:
  "list_all (\<lambda>(k', v'). \<exists>j. array_index k' = Some j \<and> j < i) xs \<Longrightarrow>
   insert_index i k v xs = xs @ [(k, v)]"
  by (induction xs) auto

lemma obj_put_append:
  assumes "map_of xs k = None" and "key_order (xs @ [(k, v)])"
  shows "obj_put k v xs = xs @ [(k, v)]"
proof (cases "array_index k")
  case None
  with assms show ?thesis by (simp add: obj_put_def)
next
  case (Some i)
  with assms have "insert_index i k v xs = xs @ [(k, v)]"
    by (intro insert_index_end key_order_before_index)
  with assms Some show ?thesis by (simp add: obj_put_def)
qed

lemma obj_build_append: "obj_build acc (xs @ ys) = obj_build (obj_build acc xs) ys"
  by (simp add: obj_build_def)

lemma obj_build_ordered: "distinct_keys ps \<Longrightarrow> key_order ps \<Longrightarrow> obj_build [] ps = ps"
proof (induction ps rule: rev_induct)
  case Nil
  then show ?case by simp
next
  case (snoc p ps)
  obtain k v where p: "p = (k, v)" by (cases p)
  from snoc.prems have "obj_build [] ps = ps"
    by (intro snoc.IH) (auto dest: key_order_snoc)
  moreover from snoc.prems p have "map_of ps k = None"
    by (auto simp: map_of_eq_None_iff)
  ultimately show ?case
    using snoc.prems p by (simp add: obj_build_append obj_put_append)
qed

subsection \<open>Values\<close>

lemma not_digit_open:
  "\<not> is_digit CHR ''[''" "\<not> is_digit CHR ''{''" "\<not> is_digit CHR 0x22"
  "\<not> is_digit CHR ''n''" "\<not> is_digit CHR ''t''" "\<not> is_digit CHR ''f''"
  by (simp_all add: is_digit_def)

lemma parse_value_number:
  assumes "c = CHR ''-'' \<or> is_digit c"
  shows "parse_value (Suc m) (c # cs) =
    (case parse_number (c # cs) of None \<Rightarrow> PError | Some (v, r) \<Rightarrow> PDone v r)"
proof -
  have "\<not> is_ws c \<and> c \<noteq> CHR ''['' \<and> c \<noteq> CHR ''{'' \<and> c \<noteq> CHR 0x22"
    using assms
  proof
    assume "c = CHR ''-''"
    then show ?thesis by simp
  next
    assume d: "is_digit c"
    then have "\<not> is_ws c" by (rule is_digit_not_ws)
    moreover have "c \<noteq> CHR ''['' \<and> c \<noteq> CHR ''{'' \<and> c \<noteq> CHR 0x22"
      using d not_digit_open(1-3) by metis
    ultimately show ?thesis by simp
  qed
  with assms show ?thesis by simp
qed

lemma json_items_cons:
  "json_str v = Some t \<Longrightarrow> list_all json_value vs \<Longrightarrow>
   \<exists>rest. join_comma (json_items (v # vs)) = t @ rest"
  by (cases vs) (auto dest!: json_value_str)

lemma json_members_cons:
  "json_str v = Some t \<Longrightarrow> list_all (\<lambda>(k, v). json_value v) ps \<Longrightarrow>
   \<exists>rest. join_comma (json_members ((k, v) # ps)) = quote_json k @ rest"
  by (cases ps) (auto dest!: json_value_str)

lemma parse_value_roundtrip: "json_value v \<Longrightarrow> value_roundtrips v"
proof (induction v)
  case JUndefined
  then show ?case by simp
next
  case JNull
  show ?case
  proof (intro allI impI)
    fix n t r
    assume "json_str JNull = Some t" and "jsize JNull < n"
    then have tt: "t = ''null''" by simp
    obtain m where "n = Suc m" using \<open>jsize JNull < n\<close> by (cases n) auto
    then show "parse_value n (t @ r) = PDone JNull r"
      using not_digit_open by (simp add: tt parse_literal_simps)
  qed
next
  case (JBool b)
  show ?case
  proof (intro allI impI)
    fix n t r
    assume "json_str (JBool b) = Some t" and "jsize (JBool b) < n"
    then have tt: "t = (if b then ''true'' else ''false'')" by simp
    obtain m where "n = Suc m" using \<open>jsize (JBool b) < n\<close> by (cases n) auto
    then show "parse_value n (t @ r) = PDone (JBool b) r"
      using not_digit_open by (cases b) (simp_all add: tt parse_literal_simps)
  qed
next
  case (JNum i)
  show ?case
  proof (intro allI impI)
    fix n t r
    assume t: "json_str (JNum i) = Some t" and sz: "jsize (JNum i) < n" and stop: "val_stop r"
    obtain m where n: "n = Suc m" using sz by (cases n) auto
    obtain c cs where sh: "show_int i = c # cs" and cd: "c = CHR ''-'' \<or> is_digit c"
      using show_int_shape by blast
    have "parse_number (show_int i @ r) = Some (JNum i, r)"
      using stop by (intro parse_show_int val_stop_num_stop)
    moreover have eq: "t @ r = c # cs @ r" using sh t by simp
    ultimately have pn: "parse_number (c # cs @ r) = Some (JNum i, r)" using t by simp
    have "parse_value n (t @ r) = parse_value (Suc m) (c # cs @ r)" by (simp only: n eq)
    also have "\<dots> = PDone (JNum i) r"
      by (simp only: parse_value_number [OF cd] pn option.case prod.case)
    finally show "parse_value n (t @ r) = PDone (JNum i) r" .
  qed
next
  case (JStr s)
  show ?case
  proof (intro allI impI)
    fix n t r
    assume "json_str (JStr s) = Some t" and "jsize (JStr s) < n"
    then have tt: "t = quote_json s" by simp
    obtain m where "n = Suc m" using \<open>jsize (JStr s) < n\<close> by (cases n) auto
    then show "parse_value n (t @ r) = PDone (JStr s) r"
      by (simp add: tt quote_json_def parse_string_quote)
  qed
next
  case (JArr vs)
  have rts: "\<forall>v \<in> set vs. value_roundtrips v"
    using JArr by (simp add: list_all_iff)
  show ?case
  proof (intro allI impI)
    fix n t r
    assume t: "json_str (JArr vs) = Some t" and sz: "jsize (JArr vs) < n" and stop: "val_stop r"
    obtain m where n: "n = Suc m" using sz by (cases n) auto
    have tt: "t = CHR ''['' # join_comma (json_items vs) @ '']''" using t by simp
    show "parse_value n (t @ r) = PDone (JArr vs) r"
    proof (cases vs)
      case Nil
      with n show ?thesis by (simp add: tt)
    next
      case (Cons w ws)
      obtain tw where tw: "json_str w = Some tw" using JArr.prems Cons json_value_str by auto
      obtain rest where join: "join_comma (json_items vs) = tw @ rest"
        using json_items_cons [OF tw] JArr.prems Cons by auto
      have shape: "tw \<noteq> [] \<and> start_ok (hd tw)" using tw by (rule json_str_shape)
      have skip: "skip_ws (tw @ rest @ CHR '']'' # r) = tw @ rest @ CHR '']'' # r"
        using shape by (rule skip_ws_start_ok)
      have hd_ne: "hd (tw @ rest @ CHR '']'' # r) \<noteq> CHR '']''"
        using shape by (simp add: start_ok_def)
      have el: "parse_elems m [] (join_comma (json_items vs) @ CHR '']'' # r) = PDone (JArr vs) r"
        using parse_elems_items [of vs m "[]" r] rts JArr.prems sz n Cons by simp
      from shape obtain c cs where c: "tw @ rest @ CHR '']'' # r = c # cs"
        by (cases tw) auto
      with hd_ne have "c \<noteq> CHR '']''" by simp
      with n join skip c el show ?thesis by (simp add: tt)
    qed
  qed
next
  case (JObj ps)
  have rts: "\<forall>(k, v) \<in> set ps. value_roundtrips v"
    using JObj by (fastforce simp: list_all_iff)
  show ?case
  proof (intro allI impI)
    fix n t r
    assume t: "json_str (JObj ps) = Some t" and sz: "jsize (JObj ps) < n" and stop: "val_stop r"
    obtain m where n: "n = Suc m" using sz by (cases n) auto
    have tt: "t = CHR ''{'' # join_comma (json_members ps) @ ''}''" using t by simp
    show "parse_value n (t @ r) = PDone (JObj ps) r"
    proof (cases ps)
      case Nil
      with n show ?thesis by (simp add: tt)
    next
      case (Cons p qs)
      obtain k w where p: "p = (k, w)" by (cases p)
      obtain tw where tw: "json_str w = Some tw" using JObj.prems Cons p json_value_str by auto
      have "list_all (\<lambda>(k, v). json_value v) qs" using JObj.prems Cons p by simp
      then obtain rest where "join_comma (json_members ((k, w) # qs)) = quote_json k @ rest"
        using json_members_cons [OF tw] by blast
      then have join: "join_comma (json_members ps) = quote_json k @ rest" using Cons p by simp
      have el: "parse_members m [] (join_comma (json_members ps) @ CHR ''}'' # r) =
          PDone (JObj (obj_build [] ps)) r"
        using rts JObj.prems sz n Cons by (intro parse_members_members) auto
      have "obj_build [] ps = ps"
        using JObj.prems by (intro obj_build_ordered) auto
      with n join el show ?thesis by (simp add: tt quote_json_def)
    qed
  qed
qed

subsection \<open>Every parse consumes input; the fuel is enough\<close>

lemma length_skip_ws: "length (skip_ws s) \<le> length s"
  by (induction s) auto

lemma parse_string_shorter: "parse_string s = Some (x, r) \<Longrightarrow> length r < length s"
proof (induction s arbitrary: x rule: parse_string.induct)
  case 1
  then show ?case by simp
next
  case (2 c cs)
  show ?case
  proof (cases "c = CHR 0x22 \<or> c \<noteq> CHR 0x5C")
    case True
    with "2.prems" "2.IH"(3) show ?thesis
      by (auto simp: cons_fst_def split: if_splits)
  next
    case False
    then have bs: "c = CHR 0x5C" and nq: "c \<noteq> CHR 0x22" by simp_all
    then obtain e rest where cs: "cs = e # rest"
      using "2.prems" by (cases cs) auto
    show ?thesis
    proof (cases "e = CHR ''u''")
      case True
      with "2.prems" bs cs obtain n x' where "hex4 rest = Some n" and "n < 256"
        and "parse_string (drop 4 rest) = Some (x', r)"
        by (auto simp: cons_fst_def split: option.splits if_splits)
      moreover from this have "length r < length (drop 4 rest)"
        using "2.IH"(1) [OF nq bs cs True] by blast
      ultimately show ?thesis using cs by simp
    next
      case False
      with "2.prems" bs cs obtain ch x' where "simple_escape e = Some ch"
        and "parse_string rest = Some (x', r)"
        by (auto simp: cons_fst_def split: option.splits if_splits)
      moreover from this have "length r < length rest"
        using "2.IH"(2) [OF nq bs cs False] by blast
      ultimately show ?thesis using cs by simp
    qed
  qed
qed

lemma parse_digits_shorter: "parse_digits s = Some (m, r) \<Longrightarrow> length r < length s"
  by (auto simp: parse_digits_def Let_def split: list.splits if_splits)

lemma parse_number_shorter: "parse_number s = Some (v, r) \<Longrightarrow> length r < length s"
  by (auto simp: parse_number_def dest!: parse_digits_shorter split: list.splits if_splits)

lemma parse_literal_shorter: "parse_literal s = Some (v, r) \<Longrightarrow> length r < length s"
proof -
  assume a: "parse_literal s = Some (v, r)"
  have "take 4 s = ''null'' \<or> take 4 s = ''true'' \<or> take 5 s = ''false''"
    using a by (auto simp: parse_literal_def split: if_splits)
  then have "s \<noteq> []" by auto
  with a show ?thesis by (auto simp: parse_literal_def split: if_splits)
qed

lemma skip_ws_cons_le: "skip_ws s = c # cs \<Longrightarrow> length cs < length s"
  using length_skip_ws [of s] by simp

lemma parse_shorter:
  "parse_value n s = PDone v r \<Longrightarrow> length r < length s"
  "parse_elems n acc s = PDone v r \<Longrightarrow> length r < length s"
  "parse_members n macc s = PDone v r \<Longrightarrow> length r < length s"
proof (induction n s and n acc s and n macc s arbitrary: v r and v r and v r
    rule: parse_value_parse_elems_parse_members.induct)
  case (1 s)
  then show ?case by simp
next
  case (2 n s)
  obtain c cs where sk: "skip_ws s = c # cs"
    using "2.prems" by (auto split: list.splits)
  have lcs: "length cs < length s" using sk by (rule skip_ws_cons_le)
  show ?case
    using "2.prems" "2.IH" sk lcs length_skip_ws [of cs]
    by (auto split: if_splits list.splits option.splits
        dest!: parse_string_shorter parse_number_shorter parse_literal_shorter)
      (metis less_trans)+
next
  case (3 acc s)
  then show ?case by simp
next
  case (4 n acc s)
  then show ?case
    by (auto split: presult.splits list.splits if_splits dest: skip_ws_cons_le)
      (metis less_trans skip_ws_cons_le)
next
  case (5 acc s)
  then show ?case by simp
next
  case (6 n acc s)
  then show ?case
    by (auto split: presult.splits list.splits if_splits option.splits
        dest!: skip_ws_cons_le parse_string_shorter)
      (metis less_trans)+
qed

text \<open>
  Running out of fuel with \<open>Suc n\<close> means that a recursive call with \<open>n\<close> on a
  strictly shorter input ran out: the step lemmas below, one per function. Induction on
  the fuel then shows that twice the input length is always enough.
\<close>

lemma parse_value_out_of_fuel:
  "parse_value (Suc n) s = POutOfFuel \<Longrightarrow>
   \<exists>cs. length cs < length s \<and> (parse_elems n [] cs = POutOfFuel \<or> parse_members n [] cs = POutOfFuel)"
  by (auto split: list.splits if_splits option.splits prod.splits dest!: skip_ws_cons_le)

lemma parse_elems_out_of_fuel:
  "parse_elems (Suc n) acc s = POutOfFuel \<Longrightarrow>
   parse_value n s = POutOfFuel \<or> (\<exists>r acc'. length r < length s \<and> parse_elems n acc' r = POutOfFuel)"
  by (auto split: presult.splits list.splits if_splits dest!: skip_ws_cons_le parse_shorter(1))
    (metis less_trans)

lemma parse_members_out_of_fuel:
  "parse_members (Suc n) acc s = POutOfFuel \<Longrightarrow>
   (\<exists>r. length r < length s \<and> parse_value n r = POutOfFuel) \<or>
   (\<exists>r acc'. length r < length s \<and> parse_members n acc' r = POutOfFuel)"
  by (auto split: presult.splits list.splits if_splits option.splits prod.splits
      dest!: skip_ws_cons_le parse_string_shorter parse_shorter(1))

lemma parse_fuel_enough:
  "\<forall>s acc macc. (2 * length s < n \<longrightarrow> parse_value n s \<noteq> POutOfFuel) \<and>
     (2 * length s + 1 < n \<longrightarrow> parse_elems n acc s \<noteq> POutOfFuel \<and> parse_members n macc s \<noteq> POutOfFuel)"
proof (induction n)
  case 0
  then show ?case by simp
next
  case (Suc n)
  show ?case
  proof (intro allI conjI impI notI)
    fix s :: string
    assume fuel: "2 * length s < Suc n" and out: "parse_value (Suc n) s = POutOfFuel"
    from parse_value_out_of_fuel [OF out] obtain cs where l: "length cs < length s"
      and "parse_elems n [] cs = POutOfFuel \<or> parse_members n [] cs = POutOfFuel" by blast
    moreover have "2 * length cs + 1 < n" using fuel l by simp
    ultimately show False using Suc.IH by blast
  next
    fix s :: string and acc :: "jsval list"
    assume fuel: "2 * length s + 1 < Suc n" and out: "parse_elems (Suc n) acc s = POutOfFuel"
    from parse_elems_out_of_fuel [OF out] show False
    proof
      assume "parse_value n s = POutOfFuel"
      moreover have "2 * length s < n" using fuel by simp
      ultimately show False using Suc.IH by blast
    next
      assume "\<exists>r acc'. length r < length s \<and> parse_elems n acc' r = POutOfFuel"
      then obtain r acc' where l: "length r < length s" and "parse_elems n acc' r = POutOfFuel" by blast
      moreover have "2 * length r + 1 < n" using fuel l by simp
      ultimately show False using Suc.IH by blast
    qed
  next
    fix s :: string and macc :: "(string \<times> jsval) list"
    assume fuel: "2 * length s + 1 < Suc n" and out: "parse_members (Suc n) macc s = POutOfFuel"
    from parse_members_out_of_fuel [OF out] show False
    proof
      assume "\<exists>r. length r < length s \<and> parse_value n r = POutOfFuel"
      then obtain r where l: "length r < length s" and "parse_value n r = POutOfFuel" by blast
      moreover have "2 * length r < n" using fuel l by simp
      ultimately show False using Suc.IH by blast
    next
      assume "\<exists>r acc'. length r < length s \<and> parse_members n acc' r = POutOfFuel"
      then obtain r acc' where l: "length r < length s" and "parse_members n acc' r = POutOfFuel" by blast
      moreover have "2 * length r + 1 < n" using fuel l by simp
      ultimately show False using Suc.IH by blast
    qed
  qed
qed

subsection \<open>The round trip\<close>

lemma jsizes_le:
  "\<forall>v \<in> set vs. size_bounded v \<Longrightarrow> list_all json_value vs \<Longrightarrow>
   jsizes vs \<le> length (join_comma (json_items vs)) + 1"
proof (induction vs)
  case Nil
  then show ?case by simp
next
  case (Cons v vs)
  obtain t where t: "json_str v = Some t" using Cons.prems(2) json_value_str by auto
  have "jsize v \<le> length t" using Cons.prems(1) t by simp
  moreover have "jsizes vs \<le> length (join_comma (json_items vs)) + 1"
    using Cons by simp
  ultimately show ?case
    using t Cons.prems(2) by (cases vs) (auto dest!: json_value_str)
qed

lemma jsizes_m_le:
  "\<forall>(k, v) \<in> set ps. size_bounded v \<Longrightarrow> list_all (\<lambda>(k, v). json_value v) ps \<Longrightarrow>
   jsizes_m ps \<le> length (join_comma (json_members ps)) + 1"
proof (induction ps)
  case Nil
  then show ?case by simp
next
  case (Cons p ps)
  obtain k v where p: "p = (k, v)" by (cases p)
  obtain t where t: "json_str v = Some t" using Cons.prems(2) p json_value_str by auto
  have "jsize v \<le> length t" using Cons.prems(1) p t by simp
  moreover have "jsizes_m ps \<le> length (join_comma (json_members ps)) + 1"
    using Cons p by simp
  ultimately show ?case
    using t p Cons.prems(2) by (cases ps) (auto simp: quote_json_def dest!: json_value_str)
qed

lemma jsize_le_length: "json_value v \<Longrightarrow> size_bounded v"
proof (induction v)
  case (JArr vs)
  then have "jsizes vs \<le> length (join_comma (json_items vs)) + 1"
    by (intro jsizes_le) (auto simp: list_all_iff)
  then show ?case by simp
next
  case (JObj ps)
  then have "jsizes_m ps \<le> length (join_comma (json_members ps)) + 1"
    by (intro jsizes_m_le) (fastforce simp: list_all_iff)+
  then show ?case by simp
qed (auto simp: quote_json_def Suc_le_eq start_ok_show_int)

theorem json_parse_stringify:
  assumes "json_value v" and "json_stringify v = Some t"
  shows "json_parse t = Inr v"
proof -
  have t: "json_str v = Some t" using assms(2) by (simp add: json_stringify_def)
  have "jsize v \<le> length t" using jsize_le_length [OF assms(1)] t by simp
  then have "jsize v < json_fuel t" by (simp add: json_fuel_def)
  moreover have "val_stop []" by simp
  ultimately have "parse_value (json_fuel t) (t @ []) = PDone v []"
    using parse_value_roundtrip [OF assms(1)] t by blast
  then show ?thesis by (simp add: json_parse_def)
qed

theorem json_parse_returns: "parse_value (json_fuel s) s \<noteq> POutOfFuel"
  using parse_fuel_enough [of "json_fuel s"] by (simp add: json_fuel_def)

end
