(* ===== verification/Web_Storage.thy ===== *)
theory Web_Storage
  imports JS_Value
begin

text \<open>
  \<open>window.localStorage\<close> as the HTML standard's Storage interface describes it: a map
  from string keys to string values, kept as an association list with distinct keys,
  and a quota on the total length of keys and values. \<open>setItem\<close> throws a
  QuotaExceededError, and changes nothing, when the new value would not fit; storing the
  value a key already has is a no-op. The service uses the one key \<open>user\<close>.
\<close>

record storage =
  items :: "(string \<times> string) list"
  quota :: nat

definition used :: "(string \<times> string) list \<Rightarrow> nat" where
  "used its = sum_list (map (\<lambda>(k, v). length k + length v) its)"

definition quota_error :: jsval where
  "quota_error = mk_error ''QuotaExceededError'' ''The quota has been exceeded.''"

definition getItem :: "storage \<Rightarrow> string \<Rightarrow> string option" where
  "getItem st k = map_of (items st) k"

definition setItem :: "string \<Rightarrow> string \<Rightarrow> storage \<Rightarrow> jsval + storage" where
  "setItem k v st =
     (if map_of (items st) k = Some v then Inr st
      else
        (let its = AList.update k v (items st)
         in if quota st < used its then Inl quota_error else Inr (st\<lparr>items := its\<rparr>)))"

definition removeItem :: "string \<Rightarrow> storage \<Rightarrow> storage" where
  "removeItem k st = st\<lparr>items := AList.delete k (items st)\<rparr>"

text \<open>The storage invariant: one entry per key, and the entries within the quota.\<close>

definition storage_ok :: "storage \<Rightarrow> bool" where
  "storage_ok st \<longleftrightarrow> distinct_keys (items st) \<and> used (items st) \<le> quota st"

subsection \<open>Behaviour of the three operations\<close>

lemma setItem_cases:
  "setItem k v st = Inr st' \<Longrightarrow> getItem st' k = Some v"
  by (auto simp: setItem_def getItem_def Let_def split: if_splits)

lemma setItem_other [storage_simps]:
  "setItem k v st = Inr st' \<Longrightarrow> k' \<noteq> k \<Longrightarrow> getItem st' k' = getItem st k'"
  by (auto simp: setItem_def getItem_def Let_def split: if_splits)

lemma setItem_error:
  "setItem k v st = Inl e \<Longrightarrow> e = quota_error"
  by (auto simp: setItem_def Let_def split: if_splits)

lemma setItem_quota [storage_simps]:
  "setItem k v st = Inr st' \<Longrightarrow> quota st' = quota st"
  by (auto simp: setItem_def Let_def split: if_splits)

lemma getItem_removeItem [simp, storage_simps]: "getItem (removeItem k st) k = None"
  by (simp add: getItem_def removeItem_def)

lemma getItem_removeItem_other [storage_simps]:
  "k' \<noteq> k \<Longrightarrow> getItem (removeItem k st) k' = getItem st k'"
  by (simp add: getItem_def removeItem_def)

lemma used_delete_le: "used (AList.delete k its) \<le> used its"
  unfolding used_def AList.delete_eq by (rule sum_list_map_filter_le)

lemma setItem_storage_ok:
  "storage_ok st \<Longrightarrow> setItem k v st = Inr st' \<Longrightarrow> storage_ok st'"
  by (auto simp: setItem_def storage_ok_def Let_def split: if_splits)

lemma removeItem_storage_ok:
  "storage_ok st \<Longrightarrow> storage_ok (removeItem k st)"
  using used_delete_le [of k "items st"]
  by (auto simp: removeItem_def storage_ok_def)

text \<open>Within the quota, \<open>setItem\<close> succeeds.\<close>

lemma setItem_fits:
  "used (AList.update k v (items st)) \<le> quota st \<Longrightarrow>
   setItem k v st = Inr (st\<lparr>items := AList.update k v (items st)\<rparr>)"
  by (auto simp: setItem_def Let_def update_triv)

end
