(* ===== verification/Axios.thy ===== *)
theory Axios
  imports JSON_Codec
begin

text \<open>
  The HTTP client the service calls, \<open>axios.post(url, body, config)\<close>, over an
  abstract server. The server is any function from a request to a reply: a status and
  a JSON body, or no reply at all (network failure). axios resolves with a response
  object \<open>{data, status}\<close> when the status is 2xx (its default \<open>validateStatus\<close>)
  and rejects with an AxiosError otherwise: \<open>{message, name, code, response}\<close> for a
  status outside 2xx, \<open>{message: "Network Error", ...}\<close> without \<open>response\<close> when
  nothing came back. Both carry the request's \<open>config\<close>, whose \<open>data\<close> is the
  request body as axios sends it, the \<open>JSON.stringify\<close> text of the object passed.
  The response fields \<open>statusText\<close>, \<open>headers\<close> and \<open>request\<close>, axios's default
  headers, timeouts and the transport itself are not modelled.
\<close>

record request =
  req_url :: string
  req_body :: jsval
  req_headers :: "(string \<times> string) list"

datatype reply = Reply nat jsval | No_reply

type_synonym server = "request \<Rightarrow> reply"

text \<open>The body as sent: axios's default \<open>transformRequest\<close> stringifies an object.\<close>

definition body_text :: "jsval \<Rightarrow> string" where
  "body_text v = (case json_stringify v of Some s \<Rightarrow> s | None \<Rightarrow> [])"

definition request_config :: "request \<Rightarrow> jsval" where
  "request_config r =
     JObj [(''url'', JStr (req_url r)), (''method'', JStr ''post''),
           (''data'', JStr (body_text (req_body r))),
           (''headers'', JObj (map (\<lambda>(k, v). (k, JStr v)) (req_headers r)))]"

definition response_object :: "request \<Rightarrow> nat \<Rightarrow> jsval \<Rightarrow> jsval" where
  "response_object r status body =
     JObj [(''data'', body), (''status'', JNum (int status)), (''config'', request_config r)]"

definition status_code :: "nat \<Rightarrow> jsval" where
  "status_code status =
     (if status div 100 = 4 then JStr ''ERR_BAD_REQUEST''
      else if status div 100 = 5 then JStr ''ERR_BAD_RESPONSE''
      else JUndefined)"

definition status_error :: "request \<Rightarrow> nat \<Rightarrow> jsval \<Rightarrow> jsval" where
  "status_error r status body =
     JObj [(''message'', JStr (''Request failed with status code '' @ show_nat status)),
           (''name'', JStr ''AxiosError''),
           (''code'', status_code status),
           (''config'', request_config r),
           (''response'', response_object r status body)]"

definition network_error :: "request \<Rightarrow> jsval" where
  "network_error r =
     JObj [(''message'', JStr ''Network Error''), (''name'', JStr ''AxiosError''),
           (''code'', JStr ''ERR_NETWORK''), (''config'', request_config r)]"

definition axios_post :: "server \<Rightarrow> string \<Rightarrow> jsval \<Rightarrow> (string \<times> string) list \<Rightarrow> jsval settled" where
  "axios_post srv url body headers =
     (let r = \<lparr>req_url = url, req_body = body, req_headers = headers\<rparr> in
      case srv r of
        Reply status data \<Rightarrow>
          if 200 \<le> status \<and> status < 300 then Fulfilled (response_object r status data)
          else Rejected (status_error r status data)
      | No_reply \<Rightarrow> Rejected (network_error r))"

text \<open>axios never rejects with \<open>null\<close> or \<open>undefined\<close>: every rejection is an object.\<close>

lemma axios_post_rejects_object:
  "axios_post srv url body headers = Rejected e \<Longrightarrow> \<not> is_nullish e"
  by (auto simp: axios_post_def status_error_def network_error_def Let_def
      split: reply.splits if_splits)

end
