(* ===== verification/Auth_Service.thy ===== *)
theory Auth_Service
  imports JSON_Roundtrip Web_Storage Axios
begin

text \<open>
  \<open>src/frontend/src/services/authService.js\<close>: the singleton \<open>AuthService\<close> with
  \<open>login\<close>, \<open>logout\<close>, \<open>register\<close> and \<open>getCurrentUser\<close>. The object has no
  fields; its state is the \<open>user\<close> slot of \<^theory_text>\<open>Web_Storage\<close>, passed
  explicitly and returned updated. The asynchronous methods return the settlement of
  their promise. \<open>login\<close> is split where the source awaits: \<open>login_resume\<close> is
  everything after \<open>await axios.post(...)\<close>, for any settlement of that promise, and
  \<open>login\<close> composes it with the request. Console output is not modelled.
\<close>

definition API_URL :: string where
  "API_URL = ''http://localhost:8080/api/auth/''"

definition login_config :: "(string \<times> string) list" where
  "login_config = [(''Content-Type'', ''application/json''), (''Accept'', ''application/json'')]"

definition login_body :: "string \<Rightarrow> string \<Rightarrow> jsval" where
  "login_body username password = JObj [(''username'', JStr username), (''password'', JStr password)]"

definition failure :: "jsval \<Rightarrow> jsval" where
  "failure msg = JObj [(''success'', JBool False), (''message'', msg)]"

definition invalid_response_msg :: string where
  "invalid_response_msg = ''Invalid response from server. Please try again.''"

definition login_failed_msg :: string where
  "login_failed_msg = ''Login failed. Please try again.''"

text \<open>\<open>String(JSON.stringify(v))\<close>, the string \<open>setItem\<close> receives.\<close>

definition stored_text :: "jsval \<Rightarrow> string" where
  "stored_text v = (case json_stringify v of Some s \<Rightarrow> s | None \<Rightarrow> ''undefined'')"

text \<open>
  The body of the \<open>try\<close> after the response has arrived: check for a token, store the
  response data, return it. \<open>Inl\<close> is an exception that leaves the block.
\<close>

definition login_try :: "jsval \<Rightarrow> storage \<Rightarrow> jsval + (jsval \<times> storage)" where
  "login_try response st =
     (case get_prop response ''data'' of
        Inl e \<Rightarrow> Inl e
      | Inr data \<Rightarrow>
          if js_truthy data \<and> js_truthy (prop_of data ''token'') then
            (case setItem ''user'' (stored_text data) st of
               Inl e \<Rightarrow> Inl e
             | Inr st' \<Rightarrow> Inr (data, st'))
          else Inr (failure (JStr invalid_response_msg), st))"

text \<open>
  The \<open>catch\<close> block. Reading \<open>error.response\<close> throws when the caught value is
  \<open>null\<close> or \<open>undefined\<close>; that exception leaves \<open>login\<close> as a rejection.
\<close>

definition login_catch :: "jsval \<Rightarrow> jsval settled" where
  "login_catch error =
     (case get_prop error ''response'' of
        Inl e \<Rightarrow> Rejected e
      | Inr resp \<Rightarrow>
          if js_truthy resp \<and> js_truthy (prop_of resp ''data'')
             \<and> js_truthy (prop_of (prop_of resp ''data'') ''message'')
          then Fulfilled (failure (prop_of (prop_of resp ''data'') ''message''))
          else Fulfilled (failure (js_or (prop_of error ''message'') (JStr login_failed_msg))))"

definition login_resume :: "jsval settled \<Rightarrow> storage \<Rightarrow> jsval settled \<times> storage" where
  "login_resume outcome st =
     (case outcome of
        Fulfilled response \<Rightarrow>
          (case login_try response st of
             Inr (v, st') \<Rightarrow> (Fulfilled v, st')
           | Inl error \<Rightarrow> (login_catch error, st))
      | Rejected error \<Rightarrow> (login_catch error, st))"

definition login_request :: "server \<Rightarrow> string \<Rightarrow> string \<Rightarrow> jsval settled" where
  "login_request srv username password =
     axios_post srv (API_URL @ ''login'') (login_body username password) login_config"

definition login :: "server \<Rightarrow> string \<Rightarrow> string \<Rightarrow> storage \<Rightarrow> jsval settled \<times> storage" where
  "login srv username password st = login_resume (login_request srv username password) st"

definition logout :: "storage \<Rightarrow> storage" where
  "logout st = removeItem ''user'' st"

definition register_body :: "string \<Rightarrow> string \<Rightarrow> string \<Rightarrow> string \<Rightarrow> jsval" where
  "register_body username email password role =
     JObj [(''username'', JStr username), (''email'', JStr email),
           (''password'', JStr password), (''role'', JStr role)]"

text \<open>\<open>.then(response => response)\<close> and \<open>.catch(error => { throw error; })\<close>.\<close>

definition register ::
  "server \<Rightarrow> string \<Rightarrow> string \<Rightarrow> string \<Rightarrow> string \<Rightarrow> storage \<Rightarrow> jsval settled \<times> storage" where
  "register srv username email password role st =
     (case axios_post srv (API_URL @ ''register'') (register_body username email password role) [] of
        Fulfilled response \<Rightarrow> (Fulfilled response, st)
      | Rejected error \<Rightarrow> (Rejected error, st))"

text \<open>\<open>localStorage.getItem('user')\<close>, converted to a string by \<open>JSON.parse\<close>.\<close>

definition current_user_text :: "storage \<Rightarrow> string" where
  "current_user_text st = (case getItem st ''user'' of Some s \<Rightarrow> s | None \<Rightarrow> ''null'')"

definition getCurrentUser :: "storage \<Rightarrow> jsval + jsval" where
  "getCurrentUser st = json_parse (current_user_text st)"

text \<open>
  The service's interface as one type of calls, so that sequences of calls (the
  application using the singleton) are lists. \<open>getCurrentUser\<close> returns or throws
  synchronously; \<open>logout\<close> returns \<open>undefined\<close>.
\<close>

datatype service_call =
    Login string string
  | Logout
  | Register string string string string
  | GetCurrentUser

datatype call_result = Settled "jsval settled" | Returned jsval | Threw jsval

fun auth_call :: "server \<Rightarrow> service_call \<Rightarrow> storage \<Rightarrow> call_result \<times> storage" where
  "auth_call srv (Login u p) st = (case login srv u p st of (r, st') \<Rightarrow> (Settled r, st'))"
| "auth_call srv Logout st = (Returned JUndefined, logout st)"
| "auth_call srv (Register u e p r) st =
     (case register srv u e p r st of (res, st') \<Rightarrow> (Settled res, st'))"
| "auth_call srv GetCurrentUser st =
     ((case getCurrentUser st of Inl e \<Rightarrow> Threw e | Inr v \<Rightarrow> Returned v), st)"

fun run_calls :: "server \<Rightarrow> service_call list \<Rightarrow> storage \<Rightarrow> call_result list \<times> storage" where
  "run_calls srv [] st = ([], st)"
| "run_calls srv (c # cs) st =
     (case auth_call srv c st of
        (r, st') \<Rightarrow> (case run_calls srv cs st' of (rs, st'') \<Rightarrow> (r # rs, st'')))"

abbreviation login_req :: "string \<Rightarrow> string \<Rightarrow> request" where
  "login_req u p \<equiv> \<lparr>req_url = API_URL @ ''login'', req_body = login_body u p, req_headers = login_config\<rparr>"

abbreviation register_req :: "string \<Rightarrow> string \<Rightarrow> string \<Rightarrow> string \<Rightarrow> request" where
  "register_req u e p r \<equiv>
     \<lparr>req_url = API_URL @ ''register'', req_body = register_body u e p r, req_headers = []\<rparr>"

subsection \<open>Concrete inputs\<close>

text \<open>A session record as the back end issues it, and an empty storage area.\<close>

definition demo_user :: jsval where
  "demo_user = JObj [(''token'', JStr ''t0k3n''), (''username'', JStr ''alice'')]"

definition demo_storage :: storage where
  "demo_storage = \<lparr>items = [], quota = 100\<rparr>"

subsection \<open>How the service evaluates\<close>

lemma login_reply:
  "login srv u p st = login_resume
     (case srv (login_req u p) of
        Reply status data \<Rightarrow>
          if 200 \<le> status \<and> status < 300 then Fulfilled (response_object (login_req u p) status data)
          else Rejected (status_error (login_req u p) status data)
      | No_reply \<Rightarrow> Rejected (network_error (login_req u p))) st"
  by (simp add: login_def login_request_def axios_post_def Let_def)

lemmas login_evaluation =
  login_reply login_resume_def login_try_def login_catch_def response_object_def status_error_def
  network_error_def quota_error_def mk_error_def js_or_def

lemma json_parse_null: "json_parse ''null'' = Inr JNull"
  by (simp add: json_parse_def json_fuel_def numeral_eq_Suc parse_literal_def is_digit_def
      cong: list.case_cong_weak presult.case_cong_weak option.case_cong_weak)

lemma json_parse_undefined: "json_parse ''undefined'' = Inl json_syntax_error"
  by (simp add: json_parse_def json_fuel_def numeral_eq_Suc parse_literal_def is_digit_def
      cong: list.case_cong_weak presult.case_cong_weak option.case_cong_weak)

lemma array_index_keys [simp]:
  "array_index ''token'' = None" "array_index ''message'' = None"
  "array_index ''data'' = None" "array_index ''response'' = None"
  by (simp_all add: array_index_def is_digit_def)

lemma not_2xx: "status < 200 \<or> 300 \<le> status \<Longrightarrow> \<not> (200 \<le> status \<and> status < (300::nat))"
  by arith

lemma token_truthy_data: "js_truthy (prop_of v ''token'') \<Longrightarrow> js_truthy v"
  by (cases v) (auto simp: prop_of_def)

lemma message_truthy_body: "js_truthy (prop_of v ''message'') \<Longrightarrow> js_truthy v"
  by (cases v) (auto simp: prop_of_def)

text \<open>The text \<open>JSON.stringify\<close> writes for a JSON value parses back to it.\<close>

lemma stored_text_parse: "json_value v \<Longrightarrow> json_parse (stored_text v) = Inr v"
  using json_value_str [of v] json_parse_stringify [of v]
  by (auto simp: stored_text_def json_stringify_def)

lemma current_user_stored:
  "getItem st ''user'' = Some (stored_text v) \<Longrightarrow> json_value v \<Longrightarrow> getCurrentUser st = Inr v"
  by (simp add: getCurrentUser_def current_user_text_def stored_text_parse)

lemmas demo_eval =
  demo_user_def demo_storage_def used_def stored_text_def json_stringify_def quote_json_def
  quote_char_def array_index_def is_digit_def storage_ok_def getItem_def

text \<open>A successful login: the reply's data is returned and the slot written.\<close>

lemma login_success:
  assumes "srv (login_req u p) = Reply status data" and "200 \<le> status" and "status < 300"
    and "js_truthy (prop_of data ''token'')"
    and "setItem ''user'' (stored_text data) st = Inr st'"
  shows "login srv u p st = (Fulfilled data, st')"
  using assms token_truthy_data [OF assms(4)]
  by (simp add: login_evaluation)

text \<open>
  What \<open>login\<close> can do to the storage: nothing, or write the data of a 2xx reply
  that carries a truthy token.
\<close>

lemma login_storage_cases:
  "snd (login srv u p st) = st \<or>
   (\<exists>status data. srv (login_req u p) = Reply status data \<and>
      js_truthy (prop_of data ''token'') \<and>
      setItem ''user'' (stored_text data) st = Inr (snd (login srv u p st)))"
  by (cases "srv (login_req u p)")
     (auto simp: login_evaluation split: sum.splits)

lemma auth_call_storage:
  "snd (auth_call srv c st) = st \<or> snd (auth_call srv c st) = logout st \<or>
   (\<exists>v. setItem ''user'' (stored_text v) st = Inr (snd (auth_call srv c st)))"
proof (cases c)
  case (Login u p)
  then show ?thesis
    using login_storage_cases [of srv u p st] by (auto split: prod.splits)
qed (auto simp: register_def split: prod.splits settled.splits)

subsection \<open>login\<close>

text \<open>
  C1: when the back end answers the login request with a 2xx status and a body whose
  \<open>token\<close> is truthy, and the session fits the storage quota, \<open>login\<close> resolves
  with exactly that body and the \<open>user\<close> slot holds its \<open>JSON.stringify\<close> text.
\<close>

theorem login_stores_session:
  assumes "srv (login_req u p) = Reply status data" and "200 \<le> status" and "status < 300"
    and "js_truthy (prop_of data ''token'')"
    and "used (AList.update ''user'' (stored_text data) (items st)) \<le> quota st"
  shows "fst (login srv u p st) = Fulfilled data \<and>
         getItem (snd (login srv u p st)) ''user'' = Some (stored_text data)"
proof -
  have set: "setItem ''user'' (stored_text data) st =
      Inr (st\<lparr>items := AList.update ''user'' (stored_text data) (items st)\<rparr>)"
    using assms(5) by (rule setItem_fits)
  show ?thesis
    using login_success [of srv u p status data, OF assms(1-4) set] setItem_cases [OF set] by simp
qed

theorem login_stores_session_witness:
  "fst (login (\<lambda>_. Reply 200 demo_user) ''alice'' ''pw'' demo_storage) = Fulfilled demo_user \<and>
   getItem (snd (login (\<lambda>_. Reply 200 demo_user) ''alice'' ''pw'' demo_storage)) ''user'' =
     Some (stored_text demo_user)"
  by (rule login_stores_session [where status = 200]) (simp_all add: demo_eval)

text \<open>
  C2: after such a login, \<open>getCurrentUser\<close> returns the session record the server
  sent, for any JSON body: the text written by \<open>JSON.stringify\<close> parses back to it.
\<close>

theorem login_then_current_user:
  assumes "srv (login_req u p) = Reply status data" and "200 \<le> status" and "status < 300"
    and "json_value data" and "js_truthy (prop_of data ''token'')"
    and "used (AList.update ''user'' (stored_text data) (items st)) \<le> quota st"
  shows "getCurrentUser (snd (login srv u p st)) = Inr data"
proof -
  have set: "setItem ''user'' (stored_text data) st =
      Inr (st\<lparr>items := AList.update ''user'' (stored_text data) (items st)\<rparr>)"
    using assms(6) by (rule setItem_fits)
  show ?thesis
    using login_success [of srv u p status data, OF assms(1-3,5) set] setItem_cases [OF set] assms(4)
    by (simp add: current_user_stored)
qed

theorem login_then_current_user_witness:
  "getCurrentUser (snd (login (\<lambda>_. Reply 200 demo_user) ''alice'' ''pw'' demo_storage)) = Inr demo_user"
  by (rule login_then_current_user [where status = 200]) (simp_all add: demo_eval)

text \<open>
  C3: a 2xx reply whose body has no truthy \<open>token\<close> makes \<open>login\<close> resolve with
  \<open>{success: false, message: 'Invalid response from server. Please try again.'}\<close>
  and leaves the storage as it was. A token that is present but empty counts as missing.
\<close>

theorem login_invalid_response:
  assumes "srv (login_req u p) = Reply status data" and "200 \<le> status" and "status < 300"
    and "\<not> js_truthy (prop_of data ''token'')"
  shows "login srv u p st = (Fulfilled (failure (JStr invalid_response_msg)), st)"
  using assms by (simp add: login_evaluation)

theorem login_invalid_response_witness:
  "login (\<lambda>_. Reply 200 (JObj [(''token'', JStr '''')])) ''alice'' ''pw'' demo_storage =
     (Fulfilled (failure (JStr invalid_response_msg)), demo_storage)"
  by (rule login_invalid_response [where status = 200 and data = "JObj [(''token'', JStr '''')]"])
     simp_all

text \<open>
  C4: a reply outside 2xx whose body has a truthy \<open>message\<close> makes \<open>login\<close> resolve
  with \<open>{success: false, message}\<close> carrying that message unchanged; the storage is
  untouched.
\<close>

theorem login_server_message:
  assumes "srv (login_req u p) = Reply status body" and "status < 200 \<or> 300 \<le> status"
    and "js_truthy (prop_of body ''message'')"
  shows "login srv u p st = (Fulfilled (failure (prop_of body ''message'')), st)"
  using assms message_truthy_body [OF assms(3)] by (simp add: login_evaluation not_2xx)

theorem login_server_message_witness:
  "login (\<lambda>_. Reply 401 (JObj [(''message'', JStr ''bad creds'')])) ''alice'' ''pw'' demo_storage =
     (Fulfilled (failure (JStr ''bad creds'')), demo_storage)"
  using login_server_message [where srv = "\<lambda>_. Reply 401 (JObj [(''message'', JStr ''bad creds'')])"
      and status = 401 and body = "JObj [(''message'', JStr ''bad creds'')]"
      and u = "''alice''" and p = "''pw''" and st = demo_storage]
  by simp

text \<open>
  C5: a reply outside 2xx without a usable \<open>message\<close> falls back to the transport
  error's own message, \<open>Request failed with status code N\<close>.
\<close>

theorem login_status_fallback:
  assumes "srv (login_req u p) = Reply status body" and "status < 200 \<or> 300 \<le> status"
    and "\<not> js_truthy (prop_of body ''message'')"
  shows "login srv u p st =
    (Fulfilled (failure (JStr (''Request failed with status code '' @ show_nat status))), st)"
  using assms by (simp add: login_evaluation not_2xx)

theorem login_status_fallback_witness:
  "login (\<lambda>_. Reply 500 JNull) ''alice'' ''pw'' demo_storage =
    (Fulfilled (failure (JStr (''Request failed with status code '' @ show_nat 500))), demo_storage)"
  by (rule login_status_fallback [where body = JNull]) (simp_all add: prop_of_def)

text \<open>
  C6: when no reply arrives, \<open>login\<close> resolves with
  \<open>{success: false, message: 'Network Error'}\<close> and the storage is untouched.
\<close>

theorem login_network_failure:
  assumes "srv (login_req u p) = No_reply"
  shows "login srv u p st = (Fulfilled (failure (JStr ''Network Error'')), st)"
  using assms by (simp add: login_evaluation)

theorem login_network_failure_witness:
  "login (\<lambda>_. No_reply) ''alice'' ''pw'' demo_storage =
     (Fulfilled (failure (JStr ''Network Error'')), demo_storage)"
  by (rule login_network_failure) simp

subsection \<open>logout and register\<close>

text \<open>C7: after \<open>logout\<close>, \<open>getCurrentUser\<close> returns \<open>null\<close>, whatever the storage held.\<close>

theorem logout_clears_session: "getCurrentUser (logout st) = Inr JNull"
  by (simp add: getCurrentUser_def current_user_text_def logout_def json_parse_null)

text \<open>
  C8: a reply outside 2xx to the register request makes \<open>register\<close> reject with the
  transport error itself (not a normalised object), and the storage is untouched.
\<close>

theorem register_propagates_rejection:
  assumes "srv (register_req u e p r) = Reply status body" and "status < 200 \<or> 300 \<le> status"
  shows "register srv u e p r st = (Rejected (status_error (register_req u e p r) status body), st)"
  using assms by (simp add: register_def axios_post_def not_2xx)

theorem register_propagates_rejection_witness:
  "register (\<lambda>_. Reply 409 (JObj [(''message'', JStr ''taken'')])) ''bob'' ''b@x'' ''pw'' ''STAFF''
     demo_storage = (Rejected (status_error (register_req ''bob'' ''b@x'' ''pw'' ''STAFF'') 409
       (JObj [(''message'', JStr ''taken'')])), demo_storage)"
  by (rule register_propagates_rejection) simp_all

text \<open>
  C9: a 2xx reply makes \<open>register\<close> resolve with the whole axios response object,
  and the storage is untouched.
\<close>

theorem register_resolves_response:
  assumes "srv (register_req u e p r) = Reply status body" and "200 \<le> status" and "status < 300"
  shows "register srv u e p r st = (Fulfilled (response_object (register_req u e p r) status body), st)"
  using assms by (simp add: register_def axios_post_def)

theorem register_resolves_response_witness:
  "register (\<lambda>_. Reply 201 JNull) ''bob'' ''b@x'' ''pw'' ''STAFF'' demo_storage =
     (Fulfilled (response_object (register_req ''bob'' ''b@x'' ''pw'' ''STAFF'') 201 JNull), demo_storage)"
  by (rule register_resolves_response) simp_all

subsection \<open>Error normalisation\<close>

text \<open>
  C10: \<open>login\<close> never rejects: whatever the server does, its promise is fulfilled.
\<close>

theorem login_never_rejects: "\<exists>v. fst (login srv u p st) = Fulfilled v"
proof (cases "srv (login_req u p)")
  case (Reply status data)
  then show ?thesis
    by (auto simp: login_evaluation split: sum.splits dest!: setItem_error)
next
  case No_reply
  then show ?thesis by (simp add: login_evaluation)
qed

text \<open>
  C11: the \<open>catch\<close> block of \<open>login\<close> turns every caught value into a fulfilled
  failure object, except \<open>null\<close> and \<open>undefined\<close>, for which reading
  \<open>error.response\<close> throws again; the guarantee of C10 rests on axios never
  rejecting with those.
\<close>

theorem login_catch_normalises: "(\<exists>v. login_catch e = Fulfilled v) \<longleftrightarrow> \<not> is_nullish e"
  by (cases e) (auto simp: login_catch_def)

theorem login_catch_normalises_witness:
  "\<not> (\<exists>v. login_catch JNull = Fulfilled v) \<and>
   (\<exists>v. login_catch (network_error (login_req ''alice'' ''pw'')) = Fulfilled v)"
  using login_catch_normalises [of JNull]
    login_catch_normalises [of "network_error (login_req ''alice'' ''pw'')"]
  by (simp add: network_error_def)

text \<open>
  C12: when writing the session exceeds the storage quota, the exception of
  \<open>setItem\<close> is caught by \<open>login\<close> itself: it resolves with the quota error's
  message and the storage is unchanged.
\<close>

theorem login_quota_exceeded:
  assumes "srv (login_req u p) = Reply status data" and "200 \<le> status" and "status < 300"
    and "js_truthy (prop_of data ''token'')"
    and "map_of (items st) ''user'' \<noteq> Some (stored_text data)"
    and "quota st < used (AList.update ''user'' (stored_text data) (items st))"
  shows "login srv u p st = (Fulfilled (failure (JStr ''The quota has been exceeded.'')), st)"
proof -
  have "setItem ''user'' (stored_text data) st = Inl quota_error"
    using assms(5,6) by (simp add: setItem_def)
  with assms(1-4) token_truthy_data [OF assms(4)] show ?thesis
    by (simp add: login_evaluation)
qed

theorem login_quota_exceeded_witness:
  "login (\<lambda>_. Reply 200 demo_user) ''alice'' ''pw'' \<lparr>items = [], quota = 10\<rparr> =
     (Fulfilled (failure (JStr ''The quota has been exceeded.'')), \<lparr>items = [], quota = 10\<rparr>)"
  by (rule login_quota_exceeded [where status = 200 and data = demo_user]) (simp_all add: demo_eval)

text \<open>
  C17: the generic message \<open>Login failed. Please try again.\<close> reaches the caller
  only when the server itself sent it as the \<open>message\<close> of an error reply: every
  rejection axios or the storage produces carries a message of its own, so the
  source's last fallback is never taken.
\<close>

theorem login_generic_fallback_from_server:
  assumes "fst (login srv u p st) = Fulfilled (failure (JStr login_failed_msg))"
  shows "\<exists>status body. srv (login_req u p) = Reply status body \<and> (status < 200 \<or> 300 \<le> status)
           \<and> prop_of body ''message'' = JStr login_failed_msg"
proof (cases "srv (login_req u p)")
  case (Reply status data)
  with assms show ?thesis
    by (auto simp: login_evaluation failure_def login_failed_msg_def invalid_response_msg_def
        split: if_splits sum.splits dest!: setItem_error)
next
  case No_reply
  with assms show ?thesis by (simp add: login_evaluation failure_def login_failed_msg_def)
qed

theorem login_generic_fallback_from_server_witness:
  "\<exists>status body. (\<lambda>_. Reply 503 (JObj [(''message'', JStr login_failed_msg)])) (login_req ''alice'' ''pw'')
       = Reply status body \<and> (status < 200 \<or> 300 \<le> status)
     \<and> prop_of body ''message'' = JStr login_failed_msg"
  by (rule login_generic_fallback_from_server [where st = demo_storage])
     (simp add: login_evaluation not_2xx login_failed_msg_def)

text \<open>
  A server \<open>message\<close> that is not a string is passed through as it is: the failure
  object's \<open>message\<close> is then a number, not the string the interface documents.
\<close>

theorem login_message_not_string:
  "login (\<lambda>_. Reply 401 (JObj [(''message'', JNum 42)])) ''alice'' ''pw'' demo_storage =
     (Fulfilled (failure (JNum 42)), demo_storage)"
  by (simp add: login_evaluation not_2xx)

subsection \<open>getCurrentUser\<close>

text \<open>
  C13: writing a JSON value's \<open>JSON.stringify\<close> text into the \<open>user\<close> slot and
  reading it back with \<open>getCurrentUser\<close> gives the value (key order included).
\<close>

theorem setItem_getCurrentUser_roundtrip:
  assumes "json_value v" and "setItem ''user'' (stored_text v) st = Inr st'"
  shows "getCurrentUser st' = Inr v"
  using setItem_cases [OF assms(2)] assms(1) by (rule current_user_stored)

theorem setItem_getCurrentUser_roundtrip_witness:
  "getCurrentUser \<lparr>items = [(''user'', stored_text demo_user)], quota = 100\<rparr> = Inr demo_user"
  by (rule setItem_getCurrentUser_roundtrip [where st = demo_storage])
     (simp_all add: demo_eval setItem_def Let_def)

text \<open>
  C14: \<open>getCurrentUser\<close> does not guard against a corrupt slot: a slot holding the
  text \<open>undefined\<close> makes it throw a SyntaxError.
\<close>

theorem current_user_undefined_slot:
  "getItem st ''user'' = Some ''undefined'' \<Longrightarrow> getCurrentUser st = Inl json_syntax_error"
  by (simp add: getCurrentUser_def current_user_text_def json_parse_undefined)

theorem current_user_undefined_slot_witness:
  "getCurrentUser \<lparr>items = [(''user'', ''undefined'')], quota = 100\<rparr> = Inl json_syntax_error"
  by (rule current_user_undefined_slot) (simp add: getItem_def)

subsection \<open>The storage across calls\<close>

text \<open>C15: no call of the service touches a storage key other than \<open>user\<close>.\<close>

theorem auth_call_frame:
  "k \<noteq> ''user'' \<Longrightarrow> getItem (snd (auth_call srv c st)) k = getItem st k"
  using auth_call_storage [of srv c st]
  by (auto simp: logout_def getItem_removeItem_other dest: setItem_other)

theorem auth_call_frame_witness:
  "getItem (snd (auth_call (\<lambda>_. Reply 200 demo_user) (Login ''alice'' ''pw'')
     \<lparr>items = [(''theme'', ''dark'')], quota = 100\<rparr>)) ''theme'' = Some ''dark''"
  using auth_call_frame [of "''theme''" "\<lambda>_. Reply 200 demo_user" "Login ''alice'' ''pw''"
      "\<lparr>items = [(''theme'', ''dark'')], quota = 100\<rparr>"]
  by (simp add: getItem_def)

end
