(* ===== verification/Session_Spec.thy ===== *)
theory Session_Spec
  imports Auth_Service
begin

text \<open>
  The contract of the service on the session, abstracted from the storage: the session
  is the record \<open>getCurrentUser\<close> would return (\<open>session_of\<close>), \<open>None\<close> for an
  empty slot. \<open>session_spec\<close> is what the specification promises of each call: a login
  either keeps the session or replaces it by the record the server accepted the
  credentials with (keeping it also when the storage refuses the write); \<open>logout\<close>
  clears it; \<open>register\<close> and \<open>getCurrentUser\<close> keep it. \<open>spec_run\<close> lifts it to
  sequences of calls. The lemmas of this theory show that \<^theory_text>\<open>Auth_Service\<close>
  refines the contract, and that the slot stays well formed (\<open>session_ok\<close>).
\<close>

type_synonym session = "jsval option"

definition session_of :: "storage \<Rightarrow> session" where
  "session_of st =
     (case getItem st ''user'' of
        None \<Rightarrow> None
      | Some s \<Rightarrow> (case json_parse s of Inr v \<Rightarrow> Some v | Inl e \<Rightarrow> None))"

text \<open>
  The slot is well formed when it is empty or holds the JSON text of a record with a
  truthy \<open>token\<close>: what a successful login writes.
\<close>

definition session_ok :: "storage \<Rightarrow> bool" where
  "session_ok st =
     (case getItem st ''user'' of
        None \<Rightarrow> True
      | Some s \<Rightarrow> (case json_parse s of Inr v \<Rightarrow> js_truthy (prop_of v ''token'') | Inl e \<Rightarrow> False))"

text \<open>The record the back end accepts a login with: a 2xx reply with a token.\<close>

definition accepted_session :: "server \<Rightarrow> string \<Rightarrow> string \<Rightarrow> session" where
  "accepted_session srv u p =
     (case srv (login_req u p) of
        Reply status d \<Rightarrow>
          if 200 \<le> status \<and> status < 300 \<and> js_truthy (prop_of d ''token'') then Some d else None
      | No_reply \<Rightarrow> None)"

inductive session_spec :: "server \<Rightarrow> service_call \<Rightarrow> session \<Rightarrow> session \<Rightarrow> bool"
  for srv :: server where
  login_store: "accepted_session srv u p = Some d \<Longrightarrow> session_spec srv (Login u p) a (Some d)"
| login_keep: "session_spec srv (Login u p) a a"
| logout: "session_spec srv Logout a None"
| register: "session_spec srv (Register u e pw r) a a"
| current: "session_spec srv GetCurrentUser a a"

inductive spec_run :: "server \<Rightarrow> service_call list \<Rightarrow> session \<Rightarrow> session \<Rightarrow> bool"
  for srv :: server where
  nil: "spec_run srv [] a a"
| cons: "session_spec srv c a b \<Longrightarrow> spec_run srv cs b b' \<Longrightarrow> spec_run srv (c # cs) a b'"

inductive_cases session_spec_LoginE: "session_spec srv (Login u p) a b"
inductive_cases session_spec_LogoutE: "session_spec srv Logout a b"

subsection \<open>The session a storage holds\<close>

lemma session_of_stored:
  "getItem st ''user'' = Some (stored_text v) \<Longrightarrow> json_value v \<Longrightarrow> session_of st = Some v"
  by (simp add: session_of_def stored_text_parse)

lemma session_ok_stored:
  "getItem st ''user'' = Some (stored_text v) \<Longrightarrow> json_value v \<Longrightarrow> js_truthy (prop_of v ''token'')
   \<Longrightarrow> session_ok st"
  by (simp add: session_ok_def stored_text_parse)

lemma session_of_logout [simp]: "session_of (logout st) = None"
  by (simp add: session_of_def logout_def)

lemma session_ok_logout [simp]: "session_ok (logout st)"
  by (simp add: session_ok_def logout_def)

text \<open>A login that writes, writes the record the server accepted.\<close>

lemma login_write_accepted:
  assumes "snd (login srv u p st) \<noteq> st"
  obtains d where "accepted_session srv u p = Some d"
    and "setItem ''user'' (stored_text d) st = Inr (snd (login srv u p st))"
proof -
  from login_storage_cases [of srv u p st] assms obtain status d
    where r: "srv (login_req u p) = Reply status d" and tok: "js_truthy (prop_of d ''token'')"
      and set: "setItem ''user'' (stored_text d) st = Inr (snd (login srv u p st))"
    by blast
  have "200 \<le> status \<and> status < 300"
  proof (rule ccontr)
    assume "\<not> (200 \<le> status \<and> status < 300)"
    with r have "snd (login srv u p st) = st"
      by (auto simp: login_evaluation)
    with assms show False by simp
  qed
  with r tok have "accepted_session srv u p = Some d" by (simp add: accepted_session_def)
  then show ?thesis using set by (rule that)
qed

lemma accepted_json:
  "(\<And>r s d. srv r = Reply s d \<Longrightarrow> json_value d) \<Longrightarrow> accepted_session srv u p = Some d
   \<Longrightarrow> json_value d"
  by (auto simp: accepted_session_def split: reply.splits if_splits)

lemma accepted_token:
  "accepted_session srv u p = Some d \<Longrightarrow> js_truthy (prop_of d ''token'')"
  by (auto simp: accepted_session_def split: reply.splits if_splits)

subsection \<open>Refinement of the contract\<close>

lemma login_session_spec:
  assumes srv: "\<And>r s d. srv r = Reply s d \<Longrightarrow> json_value d"
  shows "session_spec srv (Login u p) (session_of st) (session_of (snd (login srv u p st)))"
proof (cases "snd (login srv u p st) = st")
  case True
  then show ?thesis by (simp add: session_spec.login_keep)
next
  case False
  then obtain d where acc: "accepted_session srv u p = Some d"
    and set: "setItem ''user'' (stored_text d) st = Inr (snd (login srv u p st))"
    by (rule login_write_accepted)
  have "session_of (snd (login srv u p st)) = Some d"
    using setItem_cases [OF set] accepted_json [OF srv acc] by (rule session_of_stored)
  with acc show ?thesis by (simp add: session_spec.login_store)
qed

text \<open>
  Every call of the service refines its contract: the session after the call is one
  the contract allows from the session before it.
\<close>

lemma auth_call_session_spec:
  assumes "\<And>r s d. srv r = Reply s d \<Longrightarrow> json_value d"
  shows "session_spec srv c (session_of st) (session_of (snd (auth_call srv c st)))"
proof (cases c)
  case (Login u p)
  with login_session_spec [of srv u p st, OF assms] show ?thesis
    by (cases "login srv u p st") simp
next
  case Logout
  then show ?thesis by (simp add: session_spec.logout)
qed (auto simp: register_def session_spec.intros split: prod.splits settled.splits)

subsection \<open>What the contract allows\<close>

lemma session_spec_cases:
  "session_spec srv c a b \<Longrightarrow>
   b = a \<or> (c = Logout \<and> b = None) \<or> (\<exists>u p. c = Login u p \<and> accepted_session srv u p = b)"
  by (induction rule: session_spec.induct) auto

lemma spec_run_cases:
  "spec_run srv cs a b \<Longrightarrow>
   b = a \<or> b = None \<or> (\<exists>u p. Login u p \<in> set cs \<and> accepted_session srv u p = b)"
proof (induction rule: spec_run.induct)
  case (cons c a b cs b')
  from session_spec_cases [OF cons.hyps(1)] cons.IH show ?case by auto
qed simp

subsection \<open>The slot stays well formed\<close>

lemma login_session_ok:
  assumes srv: "\<And>r s d. srv r = Reply s d \<Longrightarrow> json_value d" and ok: "session_ok st"
  shows "session_ok (snd (login srv u p st))"
proof (cases "snd (login srv u p st) = st")
  case True
  with ok show ?thesis by simp
next
  case False
  then obtain d where acc: "accepted_session srv u p = Some d"
    and set: "setItem ''user'' (stored_text d) st = Inr (snd (login srv u p st))"
    by (rule login_write_accepted)
  show ?thesis
    using setItem_cases [OF set] accepted_json [OF srv acc] accepted_token [OF acc]
    by (rule session_ok_stored)
qed

lemma auth_call_session_ok:
  assumes "\<And>r s d. srv r = Reply s d \<Longrightarrow> json_value d" and "session_ok st"
  shows "session_ok (snd (auth_call srv c st))"
proof (cases c)
  case (Login u p)
  with login_session_ok [of srv st u p, OF assms] show ?thesis
    by (cases "login srv u p st") simp
qed (use assms(2) in \<open>auto simp: register_def split: prod.splits settled.splits\<close>)

lemma register_store [simp]: "snd (register srv u e pw r st) = st"
  by (simp add: register_def split: settled.splits)

lemma logout_storage_ok [simp]: "storage_ok st \<Longrightarrow> storage_ok (logout st)"
  by (simp add: logout_def removeItem_storage_ok)

lemma login_storage_ok: "storage_ok st \<Longrightarrow> storage_ok (snd (login srv u p st))"
  using login_storage_cases [of srv u p st] by (auto intro: setItem_storage_ok)

lemma run_calls_session_ok:
  "(\<And>r s d. srv r = Reply s d \<Longrightarrow> json_value d) \<Longrightarrow> session_ok st
   \<Longrightarrow> session_ok (snd (run_calls srv cs st))"
proof (induction cs arbitrary: st)
  case (Cons c cs)
  obtain r st' where a: "auth_call srv c st = (r, st')" by (cases "auth_call srv c st")
  have "session_ok st'"
    using auth_call_session_ok [of srv st c, OF Cons.prems] a by simp
  then have "session_ok (snd (run_calls srv cs st'))" using Cons.IH Cons.prems(1) by blast
  with a show ?case by (cases "run_calls srv cs st'") simp
qed simp

subsection \<open>Refinement of sequences of calls\<close>

text \<open>
  C18: the service refines its contract: for any sequence of calls, the sessions
  before and after it are related by a run of the contract \<open>spec_run\<close>, provided
  the back end only sends JSON bodies.
\<close>

theorem run_calls_spec_run:
  assumes "\<And>r s d. srv r = Reply s d \<Longrightarrow> json_value d"
  shows "spec_run srv cs (session_of st) (session_of (snd (run_calls srv cs st)))"
proof (induction cs arbitrary: st)
  case Nil
  then show ?case by (simp add: spec_run.nil)
next
  case (Cons c cs)
  obtain r st' where a: "auth_call srv c st = (r, st')" by (cases "auth_call srv c st")
  have "session_spec srv c (session_of st) (session_of st')"
    using auth_call_session_spec [of srv c st, OF assms] a by simp
  from spec_run.cons [OF this Cons.IH [of st']] a show ?case
    by (cases "run_calls srv cs st'") simp
qed

theorem run_calls_spec_run_witness:
  "spec_run (\<lambda>_. Reply 200 demo_user) [Login ''alice'' ''pw'', GetCurrentUser, Logout]
     (session_of demo_storage)
     (session_of (snd (run_calls (\<lambda>_. Reply 200 demo_user) [Login ''alice'' ''pw'', GetCurrentUser, Logout]
        demo_storage)))"
  by (rule run_calls_spec_run) (simp add: demo_eval)

end
