(* ===== verification/Async_Calls.thy ===== *)
theory Async_Calls
  imports Session_Spec
begin

text \<open>
  The asynchronous methods of \<open>AuthService\<close> interleaved. \<open>login\<close> and \<open>register\<close>
  suspend at \<open>axios.post\<close>; the rest of the method runs when the reply arrives, and
  replies may arrive in any order. \<open>logout\<close> and \<open>getCurrentUser\<close> run at once. The
  application's state (\<open>app\<close>) is the storage and the calls in flight;
  \<open>invoke\<close> starts a call, \<open>deliver\<close> resumes the \<open>i\<close>-th call in flight with its
  reply (\<open>resume\<close>, the code after the \<open>await\<close>). \<open>app_step\<close> is the step
  relation, \<open>reachable\<close> its reachable states and \<open>run_events\<close> runs one schedule;
  \<open>event_calls\<close> names the calls of the interface a schedule performs, against which
  the schedule is checked to refine the contract of \<^theory_text>\<open>Session_Spec\<close>.
\<close>

datatype pending_call = PLogin string string | PRegister string string string string

record app =
  store :: storage
  pending :: "pending_call list"

datatype event = Invoke service_call | Deliver nat

definition invoke :: "service_call \<Rightarrow> app \<Rightarrow> app" where
  "invoke c s =
     (case c of
        Login u p \<Rightarrow> s\<lparr>pending := pending s @ [PLogin u p]\<rparr>
      | Register u e pw r \<Rightarrow> s\<lparr>pending := pending s @ [PRegister u e pw r]\<rparr>
      | Logout \<Rightarrow> s\<lparr>store := logout (store s)\<rparr>
      | GetCurrentUser \<Rightarrow> s)"

fun resume :: "server \<Rightarrow> pending_call \<Rightarrow> storage \<Rightarrow> storage" where
  "resume srv (PLogin u p) st = snd (login_resume (login_request srv u p) st)"
| "resume srv (PRegister u e pw r) st = snd (register srv u e pw r st)"

definition deliver :: "server \<Rightarrow> nat \<Rightarrow> app \<Rightarrow> app" where
  "deliver srv i s =
     s\<lparr>store := resume srv (pending s ! i) (store s),
       pending := take i (pending s) @ drop (Suc i) (pending s)\<rparr>"

fun app_event :: "server \<Rightarrow> event \<Rightarrow> app \<Rightarrow> app option" where
  "app_event srv (Invoke c) s = Some (invoke c s)"
| "app_event srv (Deliver i) s = (if i < length (pending s) then Some (deliver srv i s) else None)"

fun run_events :: "server \<Rightarrow> event list \<Rightarrow> app \<Rightarrow> app option" where
  "run_events srv [] s = Some s"
| "run_events srv (e # es) s =
     (case app_event srv e s of None \<Rightarrow> None | Some s' \<Rightarrow> run_events srv es s')"

inductive app_step :: "server \<Rightarrow> app \<Rightarrow> app \<Rightarrow> bool" for srv :: server where
  invoke: "app_step srv s (invoke c s)"
| deliver: "i < length (pending s) \<Longrightarrow> app_step srv s (deliver srv i s)"

inductive reachable :: "server \<Rightarrow> app \<Rightarrow> app \<Rightarrow> bool" for srv :: server and s0 :: app where
  start: "reachable srv s0 s0"
| step: "reachable srv s0 s \<Longrightarrow> app_step srv s t \<Longrightarrow> reachable srv s0 t"

text \<open>The schedule in which every call completes before the next one starts.\<close>

fun sequential :: "service_call \<Rightarrow> event list" where
  "sequential (Login u p) = [Invoke (Login u p), Deliver 0]"
| "sequential (Register u e pw r) = [Invoke (Register u e pw r), Deliver 0]"
| "sequential c = [Invoke c]"

text \<open>
  The call of the interface each event performs a step of: an invocation is a step of
  the call invoked (a \<open>login\<close> or \<open>register\<close> that has not resumed yet leaves the
  session as it is), a delivery is a step of the call in flight it resumes.
\<close>

fun pending_service_call :: "pending_call \<Rightarrow> service_call" where
  "pending_service_call (PLogin u p) = Login u p"
| "pending_service_call (PRegister u e pw r) = Register u e pw r"

definition event_call :: "event \<Rightarrow> app \<Rightarrow> service_call" where
  "event_call e s = (case e of Invoke c \<Rightarrow> c | Deliver i \<Rightarrow> pending_service_call (pending s ! i))"

fun event_calls :: "server \<Rightarrow> event list \<Rightarrow> app \<Rightarrow> service_call list" where
  "event_calls srv [] s = []"
| "event_calls srv (e # es) s =
     event_call e s # (case app_event srv e s of None \<Rightarrow> [] | Some s' \<Rightarrow> event_calls srv es s')"

subsection \<open>Runs and steps\<close>

declare resume.simps [simp del]

lemma resume_login [simp]: "resume srv (PLogin u p) st = snd (login srv u p st)"
  by (simp add: resume.simps login_def)

lemma resume_register [simp]: "resume srv (PRegister u e pw r) st = st"
  by (simp add: resume.simps)

lemma app_event_step: "app_event srv e s = Some t \<Longrightarrow> app_step srv s t"
  by (cases e) (auto intro: app_step.intros split: if_splits)

lemma run_events_reachable:
  "run_events srv es s = Some t \<Longrightarrow> reachable srv s0 s \<Longrightarrow> reachable srv s0 t"
proof (induction es arbitrary: s)
  case (Cons e es)
  then obtain s' where e: "app_event srv e s = Some s'" and es: "run_events srv es s' = Some t"
    by (auto split: option.splits)
  have "reachable srv s0 s'" using Cons.prems(2) app_event_step [OF e] by (rule reachable.step)
  with es show ?case by (rule Cons.IH)
qed simp

lemma run_events_append:
  "run_events srv (es @ fs) s = (case run_events srv es s of None \<Rightarrow> None | Some t \<Rightarrow> run_events srv fs t)"
  by (induction es arbitrary: s) (auto split: option.splits)

lemma sequential_call:
  "run_events srv (sequential c) \<lparr>store = st, pending = []\<rparr> =
     Some \<lparr>store = snd (auth_call srv c st), pending = []\<rparr>"
  by (cases c) (simp_all add: invoke_def deliver_def split: prod.splits,
      metis register_store snd_conv)

subsection \<open>Invariant of the interleaved service\<close>

definition app_ok :: "app \<Rightarrow> bool" where
  "app_ok s \<longleftrightarrow> storage_ok (store s) \<and> session_ok (store s)"

lemma invoke_app_ok: "app_ok s \<Longrightarrow> app_ok (invoke c s)"
  by (cases c) (auto simp: invoke_def app_ok_def)

lemma resume_app_ok:
  assumes "\<And>r s d. srv r = Reply s d \<Longrightarrow> json_value d" and "app_ok s"
  shows "app_ok (s\<lparr>store := resume srv c (store s), pending := q\<rparr>)"
proof (cases c)
  case (PLogin u p)
  with assms show ?thesis by (simp add: app_ok_def login_storage_ok login_session_ok)
qed (use assms in \<open>simp add: app_ok_def\<close>)

lemma app_step_app_ok:
  "app_step srv s t \<Longrightarrow> (\<And>r s d. srv r = Reply s d \<Longrightarrow> json_value d) \<Longrightarrow> app_ok s \<Longrightarrow> app_ok t"
  by (induction rule: app_step.induct) (auto simp: deliver_def intro: invoke_app_ok resume_app_ok)

lemma app_event_session_spec:
  assumes "app_event srv e s = Some t" and srv: "\<And>r s d. srv r = Reply s d \<Longrightarrow> json_value d"
  shows "session_spec srv (event_call e s) (session_of (store s)) (session_of (store t))"
proof (cases e)
  case (Invoke c)
  with assms(1) have t: "t = invoke c s" by simp
  show ?thesis
  proof (cases c)
    case Logout
    with Invoke t show ?thesis by (simp add: invoke_def event_call_def session_spec.logout)
  qed (use Invoke t in \<open>auto simp: invoke_def event_call_def intro: session_spec.intros\<close>)
next
  case (Deliver i)
  with assms(1) have t: "t = deliver srv i s" by (simp split: if_splits)
  show ?thesis
  proof (cases "pending s ! i")
    case (PLogin u p)
    have "session_spec srv (Login u p) (session_of (store s)) (session_of (snd (login srv u p (store s))))"
      using srv by (rule login_session_spec)
    with Deliver PLogin t show ?thesis by (simp add: deliver_def event_call_def)
  next
    case (PRegister u e pw r)
    with Deliver t show ?thesis by (simp add: deliver_def event_call_def session_spec.register)
  qed
qed

lemma app_step_session_spec:
  assumes "app_step srv s t" and "\<And>r s d. srv r = Reply s d \<Longrightarrow> json_value d"
  shows "\<exists>c. session_spec srv c (session_of (store s)) (session_of (store t))"
  using assms(1)
proof (induction rule: app_step.induct)
  case (invoke s c)
  have "app_event srv (Invoke c) s = Some (invoke c s)" by simp
  then show ?case using assms(2) by (blast dest: app_event_session_spec)
next
  case (deliver i s)
  then have "app_event srv (Deliver i) s = Some (deliver srv i s)" by simp
  then show ?case using assms(2) by (blast dest: app_event_session_spec)
qed

subsection \<open>A reply delivered late\<close>

lemma deliver_login_store:
  assumes "i < length (pending s)" and "pending s ! i = PLogin u p"
    and "srv (login_req u p) = Reply status data" and "200 \<le> status" and "status < 300"
    and "js_truthy (prop_of data ''token'')"
    and "used (AList.update ''user'' (stored_text data) (items (store s))) \<le> quota (store s)"
  shows "getItem (store (deliver srv i s)) ''user'' = Some (stored_text data)"
proof -
  have set: "setItem ''user'' (stored_text data) (store s) =
      Inr ((store s)\<lparr>items := AList.update ''user'' (stored_text data) (items (store s))\<rparr>)"
    using assms(7) by (rule setItem_fits)
  have "snd (login srv u p (store s)) =
      (store s)\<lparr>items := AList.update ''user'' (stored_text data) (items (store s))\<rparr>"
    using login_success [of srv u p status data, OF assms(3-6) set] by simp
  then show ?thesis using setItem_cases [OF set] assms(2) by (simp add: deliver_def)
qed

text \<open>
  The interleaving the witnesses use: a login is called, then \<open>logout\<close>, and only then
  the login's reply arrives.
\<close>

lemma demo_interleaving_reachable:
  "reachable (\<lambda>_. Reply 200 demo_user) \<lparr>store = demo_storage, pending = []\<rparr>
     (deliver (\<lambda>_. Reply 200 demo_user) 0
        (invoke Logout (invoke (Login ''alice'' ''pw'') \<lparr>store = demo_storage, pending = []\<rparr>)))"
proof -
  let ?s0 = "\<lparr>store = demo_storage, pending = []\<rparr>"
  have "reachable (\<lambda>_. Reply 200 demo_user) ?s0 (invoke Logout (invoke (Login ''alice'' ''pw'') ?s0))"
    by (rule reachable.step [OF reachable.step [OF reachable.start app_step.invoke] app_step.invoke])
  then show ?thesis
    by (rule reachable.step) (rule app_step.deliver, simp add: invoke_def)
qed

subsection \<open>Properties of the interleaved service\<close>

text \<open>
  C20: however the calls interleave and in whatever order the replies arrive, the
  storage stays well formed and the \<open>user\<close> slot holds either nothing or a record
  with a token, provided the back end only sends JSON bodies and the start state is
  well formed.
\<close>

theorem interleaved_invariant:
  assumes "reachable srv s0 s" and "\<And>r s d. srv r = Reply s d \<Longrightarrow> json_value d"
    and "storage_ok (store s0)" and "session_ok (store s0)"
  shows "storage_ok (store s) \<and> session_ok (store s)"
proof -
  have "app_ok s"
    using assms(1)
  proof (induction rule: reachable.induct)
    case start
    then show ?case using assms(3,4) by (simp add: app_ok_def)
  next
    case (step s t)
    then show ?case using assms(2) by (blast intro: app_step_app_ok)
  qed
  then show ?thesis by (simp add: app_ok_def)
qed

theorem interleaved_invariant_witness:
  "storage_ok (store (deliver (\<lambda>_. Reply 200 demo_user) 0
      (invoke Logout (invoke (Login ''alice'' ''pw'') \<lparr>store = demo_storage, pending = []\<rparr>)))) \<and>
   session_ok (store (deliver (\<lambda>_. Reply 200 demo_user) 0
      (invoke Logout (invoke (Login ''alice'' ''pw'') \<lparr>store = demo_storage, pending = []\<rparr>))))"
proof (rule interleaved_invariant)
  show "reachable (\<lambda>_. Reply 200 demo_user) \<lparr>store = demo_storage, pending = []\<rparr>
      (deliver (\<lambda>_. Reply 200 demo_user) 0
        (invoke Logout (invoke (Login ''alice'' ''pw'') \<lparr>store = demo_storage, pending = []\<rparr>)))"
    by (rule demo_interleaving_reachable)
qed (simp_all add: demo_eval session_ok_def)

text \<open>
  Running the calls one after the other, each login and register resumed before
  the next call starts, is exactly the sequential model \<open>run_calls\<close>: the
  interleaved model contains the sequential one as one of its schedules.
\<close>

lemma sequential_schedule:
  "run_events srv (concat (map sequential cs)) \<lparr>store = st, pending = []\<rparr> =
     Some \<lparr>store = snd (run_calls srv cs st), pending = []\<rparr>"
proof (induction cs arbitrary: st)
  case (Cons c cs)
  then show ?case
    by (simp add: run_events_append sequential_call split: prod.splits)
qed simp

text \<open>
  C21: \<open>logout\<close> does not cancel a login that is waiting for its reply: when the
  reply arrives after the logout and accepts the credentials, the session is stored
  again and \<open>getCurrentUser\<close> returns it.
\<close>

theorem logout_does_not_cancel_login:
  assumes "i < length (pending s)" and "pending s ! i = PLogin u p"
    and "srv (login_req u p) = Reply status data" and "200 \<le> status" and "status < 300"
    and "json_value data" and "js_truthy (prop_of data ''token'')"
    and "used (AList.update ''user'' (stored_text data) (items (logout (store s)))) \<le> quota (store s)"
  shows "getCurrentUser (store (deliver srv i (invoke Logout s))) = Inr data"
proof -
  have "getItem (store (deliver srv i (invoke Logout s))) ''user'' = Some (stored_text data)"
    using assms(1-5,7,8)
    by (intro deliver_login_store [where status = status]) (simp_all add: invoke_def logout_def removeItem_def)
  then show ?thesis using assms(6) by (rule current_user_stored)
qed

theorem logout_does_not_cancel_login_witness:
  "getCurrentUser (store (deliver (\<lambda>_. Reply 200 demo_user) 0
     (invoke Logout \<lparr>store = demo_storage, pending = [PLogin ''alice'' ''pw'']\<rparr>))) = Inr demo_user"
  by (rule logout_does_not_cancel_login [where status = 200 and u = "''alice''" and p = "''pw''"])
     (simp_all add: demo_eval logout_def removeItem_def)

text \<open>
  C22: the session after a reply is delivered is the record that reply accepted,
  whatever was stored before and whatever calls are still in flight: with replies out
  of order, the last reply delivered wins, not the last call made.
\<close>

theorem delivered_login_wins:
  assumes "i < length (pending s)" and "pending s ! i = PLogin u p"
    and "srv (login_req u p) = Reply status data" and "200 \<le> status" and "status < 300"
    and "json_value data" and "js_truthy (prop_of data ''token'')"
    and "used (AList.update ''user'' (stored_text data) (items (store s))) \<le> quota (store s)"
  shows "session_of (store (deliver srv i s)) = Some data"
  using deliver_login_store [of i s u p srv status data, OF assms(1-5,7,8)] assms(6)
  by (rule session_of_stored)

theorem delivered_login_wins_witness:
  "session_of (store (deliver (\<lambda>_. Reply 200 demo_user) 0
     \<lparr>store = \<lparr>items = [(''user'', ''{}'')], quota = 100\<rparr>,
      pending = [PLogin ''alice'' ''pw'', PLogin ''bob'' ''pw'']\<rparr>)) = Some demo_user"
  by (rule delivered_login_wins [where status = 200]) (simp_all add: demo_eval)

text \<open>
  No call stays in flight forever once its reply comes: from any state, delivering
  the first reply in flight as many times as there are calls in flight is a valid
  schedule, it resumes every call once and in the order the calls were made, and it
  leaves no call in flight.
\<close>

lemma drain_in_order:
  "run_events srv (replicate (length (pending s)) (Deliver 0)) s =
     Some (s\<lparr>store := fold (resume srv) (pending s) (store s), pending := []\<rparr>)"
proof (induction "pending s" arbitrary: s)
  case Nil
  then show ?case by simp
next
  case (Cons c cs)
  let ?t = "deliver srv 0 s"
  have t: "pending ?t = cs" "store ?t = resume srv c (store s)"
    using Cons.hyps(2) [symmetric] by (simp_all add: deliver_def)
  have "run_events srv (replicate (length cs) (Deliver 0)) ?t =
      Some (?t\<lparr>store := fold (resume srv) cs (store ?t), pending := []\<rparr>)"
    using Cons.hyps(1) [of ?t] t(1) by simp
  with Cons.hyps(2) [symmetric] t show ?case by (simp add: deliver_def)
qed


subsection \<open>Refinement of the contract\<close>

text \<open>
  C26: the interleaved service refines the contract of \<^theory_text>\<open>Session_Spec\<close>
  event by event: for any schedule of invocations and replies the service runs, the
  session moves as the contract allows for the sequence of calls the events perform
  (\<open>event_calls\<close>: each invocation a step of the call invoked, each delivered reply a
  step of the call it resumes), when the server answers with JSON.
\<close>

theorem run_events_spec_run:
  assumes "run_events srv es s = Some t" and "\<And>r s d. srv r = Reply s d \<Longrightarrow> json_value d"
  shows "spec_run srv (event_calls srv es s) (session_of (store s)) (session_of (store t))"
  using assms(1)
proof (induction es arbitrary: s)
  case Nil
  then show ?case by (simp add: spec_run.nil)
next
  case (Cons e es)
  then obtain s' where e: "app_event srv e s = Some s'" and es: "run_events srv es s' = Some t"
    by (auto split: option.splits)
  have "session_spec srv (event_call e s) (session_of (store s)) (session_of (store s'))"
    using e assms(2) by (rule app_event_session_spec)
  moreover have "spec_run srv (event_calls srv es s') (session_of (store s')) (session_of (store t))"
    using es by (rule Cons.IH)
  ultimately show ?case using e by (simp add: spec_run.cons)
qed

theorem run_events_spec_run_witness:
  "spec_run (\<lambda>_. Reply 200 demo_user) [Login ''alice'' ''pw'', Logout, Login ''alice'' ''pw'']
     None (Some demo_user)"
proof -
  let ?srv = "\<lambda>_ :: request. Reply 200 demo_user"
  let ?s0 = "\<lparr>store = demo_storage, pending = []\<rparr>"
  let ?es = "[Invoke (Login ''alice'' ''pw''), Invoke Logout, Deliver 0]"
  have "run_events ?srv ?es ?s0 =
      Some (deliver ?srv 0 (invoke Logout (invoke (Login ''alice'' ''pw'') ?s0)))"
    by (simp add: invoke_def)
  from run_events_spec_run [OF this]
  have "spec_run ?srv [Login ''alice'' ''pw'', Logout, Login ''alice'' ''pw''] None
      (session_of (snd (login ?srv ''alice'' ''pw'' (logout demo_storage))))"
    by (simp add: demo_eval invoke_def deliver_def event_call_def session_of_def)
  moreover have "login ?srv ''alice'' ''pw'' (logout demo_storage) =
      (Fulfilled demo_user, demo_storage\<lparr>items := [(''user'', stored_text demo_user)]\<rparr>)"
    by (rule login_success [where status = 200]) (simp_all add: demo_eval logout_def removeItem_def setItem_def)
  moreover have "session_of (demo_storage\<lparr>items := [(''user'', stored_text demo_user)]\<rparr>) = Some demo_user"
    by (rule session_of_stored) (simp_all add: demo_eval)
  ultimately show ?thesis by simp
qed

text \<open>
  C27: in every reachable state of the interleaved service the session is the initial
  one, empty, or the record the server accepted some credentials with: no interleaving
  of calls and replies produces a session the server never issued.
\<close>

theorem reachable_session_provenance:
  assumes "reachable srv s0 s" and "\<And>r s d. srv r = Reply s d \<Longrightarrow> json_value d"
  shows "session_of (store s) = session_of (store s0) \<or> session_of (store s) = None \<or>
         (\<exists>u p. accepted_session srv u p = session_of (store s))"
  using assms(1)
proof (induction rule: reachable.induct)
  case start
  show ?case by simp
next
  case (step s t)
  obtain c where "session_spec srv c (session_of (store s)) (session_of (store t))"
  proof -
    have "\<exists>c. session_spec srv c (session_of (store s)) (session_of (store t))"
      using \<open>app_step srv s t\<close> assms(2) by (rule app_step_session_spec)
    then show ?thesis using that by blast
  qed
  from session_spec_cases [OF this] step.IH show ?case by auto
qed

theorem reachable_session_provenance_witness:
  "session_of (store (deliver (\<lambda>_. Reply 200 demo_user) 0
      (invoke Logout (invoke (Login ''alice'' ''pw'') \<lparr>store = demo_storage, pending = []\<rparr>)))) =
     session_of demo_storage \<or>
   session_of (store (deliver (\<lambda>_. Reply 200 demo_user) 0
      (invoke Logout (invoke (Login ''alice'' ''pw'') \<lparr>store = demo_storage, pending = []\<rparr>)))) = None \<or>
   (\<exists>u p. accepted_session (\<lambda>_. Reply 200 demo_user) u p =
      session_of (store (deliver (\<lambda>_. Reply 200 demo_user) 0
        (invoke Logout (invoke (Login ''alice'' ''pw'') \<lparr>store = demo_storage, pending = []\<rparr>)))))"
  using reachable_session_provenance [OF demo_interleaving_reachable] by (simp add: demo_eval)

end
