(* ===== verification/Auth_Console.thy ===== *)
theory Auth_Console
  imports Auth_Service "HOL-Library.Sublist"
begin

text \<open>
  The console output of \<open>authService.js\<close>. \<open>login\<close> and \<open>register\<close> call
  \<open>console.log\<close> and \<open>console.error\<close> with strings and with the values they handle;
  the console is an observable channel (browser developer tools, log collectors), so
  what reaches it matters. \<open>login_traced\<close> and \<open>register_traced\<close> are the two methods
  with their console calls, line by line, returning the console entries as a list
  beside the result and the storage; \<open>logout\<close> and \<open>getCurrentUser\<close> log nothing.
  \<open>mentions t v\<close> says that the text \<open>t\<close> occurs in one of the strings (or keys, or
  printed numbers) of \<open>v\<close>, which is what the console shows of it when the object is
  expanded. The lemmas show that the traced methods compute what
  \<^theory_text>\<open>Auth_Service\<close> computes, and where the password goes.
\<close>

datatype console_entry = ConsoleLog "jsval list" | ConsoleError "jsval list"

type_synonym console = "console_entry list"

primrec entry_args :: "console_entry \<Rightarrow> jsval list" where
  "entry_args (ConsoleLog vs) = vs"
| "entry_args (ConsoleError vs) = vs"

fun mentions :: "string \<Rightarrow> jsval \<Rightarrow> bool"
  and mentions_list :: "string \<Rightarrow> jsval list \<Rightarrow> bool"
  and mentions_members :: "string \<Rightarrow> (string \<times> jsval) list \<Rightarrow> bool" where
  "mentions t (JStr s) = sublist t s"
| "mentions t (JNum n) = sublist t (show_int n)"
| "mentions t (JArr vs) = mentions_list t vs"
| "mentions t (JObj ps) = mentions_members t ps"
| "mentions t v = False"
| "mentions_list t [] = False"
| "mentions_list t (v # vs) = (mentions t v \<or> mentions_list t vs)"
| "mentions_members t [] = False"
| "mentions_members t ((k, v) # ps) = (sublist t k \<or> mentions t v \<or> mentions_members t ps)"

definition console_mentions :: "string \<Rightarrow> console \<Rightarrow> bool" where
  "console_mentions t out = list_ex (\<lambda>e. list_ex (mentions t) (entry_args e)) out"

text \<open>The \<open>try\<close> block of \<open>login\<close> after the await (lines 24--37), with its output.\<close>

definition login_try_traced :: "jsval \<Rightarrow> storage \<Rightarrow> (jsval + (jsval \<times> storage)) \<times> console" where
  "login_try_traced response st =
     (let out = [ConsoleLog [JStr ''Login response:'', response]] in
      case get_prop response ''data'' of
        Inl e \<Rightarrow> (Inl e, out)
      | Inr data \<Rightarrow>
          if js_truthy data \<and> js_truthy (prop_of data ''token'') then
            (case setItem ''user'' (stored_text data) st of
               Inl e \<Rightarrow> (Inl e, out)
             | Inr st' \<Rightarrow> (Inr (data, st'), out))
          else (Inr (failure (JStr invalid_response_msg), st),
                out @ [ConsoleError [JStr ''Invalid login response format:'', data]]))"

text \<open>The \<open>catch\<close> block of \<open>login\<close> (lines 38--58), with its output.\<close>

definition login_catch_traced :: "jsval \<Rightarrow> jsval settled \<times> console" where
  "login_catch_traced error =
     (let out = [ConsoleError [JStr ''Login error:'', error]] in
      case get_prop error ''response'' of
        Inl e \<Rightarrow> (Rejected e, out)
      | Inr resp \<Rightarrow>
          (let out' =
             (if js_truthy resp
              then out @ [ConsoleError [JStr ''Error response status:'', prop_of resp ''status''],
                          ConsoleError [JStr ''Error response data:'', prop_of resp ''data'']]
              else out)
           in if js_truthy resp \<and> js_truthy (prop_of resp ''data'')
                 \<and> js_truthy (prop_of (prop_of resp ''data'') ''message'')
              then (Fulfilled (failure (prop_of (prop_of resp ''data'') ''message'')), out')
              else (Fulfilled (failure (js_or (prop_of error ''message'') (JStr login_failed_msg))), out')))"

definition login_traced :: "server \<Rightarrow> string \<Rightarrow> string \<Rightarrow> storage \<Rightarrow> jsval settled \<times> storage \<times> console" where
  "login_traced srv username password st =
     (let out = [ConsoleLog [JStr ''Attempting login for user:'', JStr username]] in
      case login_request srv username password of
        Fulfilled response \<Rightarrow>
          (case login_try_traced response st of
             (Inr (v, st'), out1) \<Rightarrow> (Fulfilled v, st', out @ out1)
           | (Inl error, out1) \<Rightarrow>
               (case login_catch_traced error of (r, out2) \<Rightarrow> (r, st, out @ out1 @ out2)))
      | Rejected error \<Rightarrow>
          (case login_catch_traced error of (r, out2) \<Rightarrow> (r, st, out @ out2)))"

definition register_traced ::
  "server \<Rightarrow> string \<Rightarrow> string \<Rightarrow> string \<Rightarrow> string \<Rightarrow> storage \<Rightarrow> jsval settled \<times> storage \<times> console" where
  "register_traced srv username email password role st =
     (let out = [ConsoleLog [JStr ''Registering new user:'', JStr username, JStr ''with role:'', JStr role]] in
      case axios_post srv (API_URL @ ''register'') (register_body username email password role) [] of
        Fulfilled response \<Rightarrow>
          (Fulfilled response, st,
           out @ [ConsoleLog [JStr ''Registration successful:'', prop_of response ''data'']])
      | Rejected error \<Rightarrow> (Rejected error, st, out @ [ConsoleError [JStr ''Registration error:'', error]]))"

subsection \<open>The traced methods compute the service's results\<close>

lemma login_try_traced_result: "fst (login_try_traced response st) = login_try response st"
  by (simp add: login_try_traced_def login_try_def Let_def split: sum.splits)

lemma login_catch_traced_result: "fst (login_catch_traced error) = login_catch error"
  by (simp add: login_catch_traced_def login_catch_def Let_def split: sum.splits)

subsection \<open>What reaches the console\<close>

lemma console_mentions_append [simp]:
  "console_mentions t (xs @ ys) \<longleftrightarrow> console_mentions t xs \<or> console_mentions t ys"
  by (simp add: console_mentions_def)

lemma console_mentions_Cons [simp]:
  "console_mentions t (e # es) \<longleftrightarrow> list_ex (mentions t) (entry_args e) \<or> console_mentions t es"
  by (simp add: console_mentions_def)

lemma console_mentions_Nil [simp]: "\<not> console_mentions t []"
  by (simp add: console_mentions_def)

lemma sublist_ConsI: "sublist t ys \<Longrightarrow> sublist t (x # ys)"
  by (simp add: sublist_Cons_right)

lemma sublist_append_frontI: "sublist t ys \<Longrightarrow> sublist t (xs @ ys)"
  by (metis append.assoc sublist_def)

lemmas sublist_search = sublist_append_rightI sublist_ConsI sublist_append_frontI

text \<open>The request body axios sends holds the password, quoted as JSON.\<close>

lemma body_text_login: "sublist (quote_json p) (body_text (login_body u p))"
  by (simp add: body_text_def json_stringify_def login_body_def) (intro sublist_search)

lemma body_text_register: "sublist (quote_json p) (body_text (register_body u e p r))"
  by (simp add: body_text_def json_stringify_def register_body_def) (intro sublist_search)

lemma quote_json_not_in [simp]: "CHR 0x22 \<notin> set s \<Longrightarrow> \<not> sublist (quote_json p) s"
  by (metis list.set_intros(1) quote_json_def set_mono_sublist subsetD)

text \<open>Every value axios produces for a request carries the request body in \<open>config\<close>.\<close>

lemma mentions_axios:
  assumes "sublist t (body_text (req_body r))"
  shows "mentions t (response_object r status d)" "mentions t (status_error r status d)"
    "mentions t (network_error r)"
  using assms
  by (simp_all add: response_object_def status_error_def network_error_def request_config_def)

lemma login_request_mentions:
  "login_request srv u p = Fulfilled v \<Longrightarrow> mentions (quote_json p) v"
  "login_request srv u p = Rejected e \<Longrightarrow> mentions (quote_json p) e"
  using body_text_login [of p u]
  by (auto simp: login_request_def axios_post_def Let_def mentions_axios
      split: reply.splits if_splits)

lemma login_try_traced_logs:
  "mentions t response \<Longrightarrow> console_mentions t (snd (login_try_traced response st))"
  by (simp add: login_try_traced_def Let_def split: sum.splits option.splits)

lemma login_catch_traced_logs:
  "mentions t error \<Longrightarrow> console_mentions t (snd (login_catch_traced error))"
  by (simp add: login_catch_traced_def Let_def split: sum.splits)

subsection \<open>Properties of the console output\<close>

text \<open>
  The methods with their console calls return the same results and leave the same
  storage as the methods of \<^theory_text>\<open>Auth_Service\<close>: logging changes nothing else.
\<close>

lemma traced_methods_equiv:
  "(fst (login_traced srv u p st), fst (snd (login_traced srv u p st))) = login srv u p st \<and>
   (fst (register_traced srv u e pw r st), fst (snd (register_traced srv u e pw r st))) =
     register srv u e pw r st"
  by (simp add: login_traced_def login_def login_resume_def register_traced_def register_def Let_def
      case_prod_unfold login_try_traced_result login_catch_traced_result
      split: settled.splits sum.splits)

text \<open>
  C23: every call of \<open>login\<close> writes the password to the console, on every path:
  the success and invalid-response paths log the axios response and the failure paths
  log the axios error, and both carry the request \<open>config\<close> whose \<open>data\<close> is the
  request body \<open>{"username": ..., "password": ...}\<close> as sent.
\<close>

theorem login_logs_password:
  "console_mentions (quote_json p) (snd (snd (login_traced srv u p st)))"
proof (cases "login_request srv u p")
  case (Fulfilled response)
  then show ?thesis
    using login_try_traced_logs [OF login_request_mentions(1) [OF Fulfilled], of st]
    by (simp add: login_traced_def Let_def case_prod_unfold split: sum.splits)
next
  case (Rejected error)
  then show ?thesis
    using login_catch_traced_logs [OF login_request_mentions(2) [OF Rejected]]
    by (simp add: login_traced_def Let_def case_prod_unfold)
qed

text \<open>
  C24: when \<open>register\<close> fails, its \<open>catch\<close> logs the axios error, and with it the
  password from the request body.
\<close>

theorem register_error_logs_password:
  assumes "fst (register_traced srv u e pw r st) = Rejected err"
  shows "console_mentions (quote_json pw) (snd (snd (register_traced srv u e pw r st)))"
  using assms body_text_register [of pw u e r]
  by (auto simp: register_traced_def axios_post_def Let_def mentions_axios split: reply.splits if_splits)

theorem register_error_logs_password_witness:
  "console_mentions (quote_json ''pw'')
     (snd (snd (register_traced (\<lambda>_. No_reply) ''bob'' ''b@x'' ''pw'' ''STAFF'' demo_storage)))"
  by (rule register_error_logs_password [where err = "network_error (register_req ''bob'' ''b@x'' ''pw'' ''STAFF'')"])
     (simp add: register_traced_def axios_post_def Let_def)



end
