(* ===== verification/Dashboard.thy ===== *)
theory Dashboard
  imports JS_Value
begin

text \<open>
  \<open>src/frontend/src/components/dashboards/WarehouseStaffDashboard.js\<close>: a React
  function component without props or state that returns fixed JSX. JSX is
  \<open>React.createElement(type, props, ...children)\<close>, so the component is modelled by
  the element tree it returns: an element has a type (a react-bootstrap component such
  as \<open>Card.Body\<close>, or a host tag such as \<open>td\<close>), its props as JavaScript values
  (\<open>md={4}\<close> is \<open>JNum 4\<close>, a bare attribute such as \<open>fluid\<close> is \<open>JBool True\<close>),
  and its children; JSX text is a text node (whitespace-only lines between elements
  produce none). The checks below are functions over any tree.
\<close>

datatype node = Text string | Elem string "(string \<times> jsval) list" "node list"

definition WarehouseStaffDashboard :: node where
  "WarehouseStaffDashboard =
     Elem ''Container'' [(''fluid'', JBool True), (''className'', JStr ''mt-4'')]
      [Elem ''h2'' [(''className'', JStr ''mb-4'')] [Text ''Warehouse Staff Dashboard''],
       Elem ''Row'' []
        [Elem ''Col'' [(''md'', JNum 4)]
          [Elem ''Card'' [(''className'', JStr ''mb-4'')]
            [Elem ''Card.Body'' []
              [Elem ''Card.Title'' [] [Text ''Pending Orders''],
               Elem ''Card.Text'' [(''className'', JStr ''h2'')] [Text ''15''],
               Elem ''Button'' [(''variant'', JStr ''primary''), (''size'', JStr ''sm'')]
                 [Text ''Process Orders'']]]],
         Elem ''Col'' [(''md'', JNum 4)]
          [Elem ''Card'' [(''className'', JStr ''mb-4'')]
            [Elem ''Card.Body'' []
              [Elem ''Card.Title'' [] [Text ''Items to Pack''],
               Elem ''Card.Text'' [(''className'', JStr ''h2'')] [Text ''34''],
               Elem ''Button'' [(''variant'', JStr ''primary''), (''size'', JStr ''sm'')]
                 [Text ''View Packing List'']]]],
         Elem ''Col'' [(''md'', JNum 4)]
          [Elem ''Card'' [(''className'', JStr ''mb-4'')]
            [Elem ''Card.Body'' []
              [Elem ''Card.Title'' [] [Text ''Low Stock Items''],
               Elem ''Card.Text'' [(''className'', JStr ''h2'')] [Text ''8''],
               Elem ''Button'' [(''variant'', JStr ''primary''), (''size'', JStr ''sm'')]
                 [Text ''Check Inventory'']]]]],
       Elem ''Row'' []
        [Elem ''Col'' [(''md'', JNum 8)]
          [Elem ''Card'' [(''className'', JStr ''mb-4'')]
            [Elem ''Card.Header'' [] [Text ''Today's Tasks''],
             Elem ''Card.Body'' []
              [Elem ''Table'' [(''responsive'', JBool True)]
                [Elem ''thead'' []
                  [Elem ''tr'' []
                    [Elem ''th'' [] [Text ''Order ID''],
                     Elem ''th'' [] [Text ''Items''],
                     Elem ''th'' [] [Text ''Priority''],
                     Elem ''th'' [] [Text ''Status''],
                     Elem ''th'' [] [Text ''Actions'']]],
                 Elem ''tbody'' []
                  [Elem ''tr'' []
                    [Elem ''td'' [] [Text ''#5678''],
                     Elem ''td'' [] [Text ''5 items''],
                     Elem ''td'' [] [Elem ''span'' [(''className'', JStr ''badge bg-danger'')] [Text ''High'']],
                     Elem ''td'' [] [Text ''Pending''],
                     Elem ''td'' []
                       [Elem ''Button'' [(''variant'', JStr ''primary''), (''size'', JStr ''sm'')]
                         [Text ''Process'']]],
                   Elem ''tr'' []
                    [Elem ''td'' [] [Text ''#5679''],
                     Elem ''td'' [] [Text ''3 items''],
                     Elem ''td'' [] [Elem ''span'' [(''className'', JStr ''badge bg-warning'')] [Text ''Medium'']],
                     Elem ''td'' [] [Text ''Packing''],
                     Elem ''td'' []
                       [Elem ''Button'' [(''variant'', JStr ''primary''), (''size'', JStr ''sm'')]
                         [Text ''Complete'']]]]]]]],
         Elem ''Col'' [(''md'', JNum 4)]
          [Elem ''Card'' [(''className'', JStr ''mb-4'')]
            [Elem ''Card.Header'' [] [Text ''Quick Actions''],
             Elem ''Card.Body'' []
              [Elem ''div'' [(''className'', JStr ''d-grid gap-2'')]
                [Elem ''Button'' [(''variant'', JStr ''primary''), (''className'', JStr ''mb-2'')]
                   [Text ''Scan New Items''],
                 Elem ''Button'' [(''variant'', JStr ''outline-primary''), (''className'', JStr ''mb-2'')]
                   [Text ''Print Labels''],
                 Elem ''Button'' [(''variant'', JStr ''outline-primary''), (''className'', JStr ''mb-2'')]
                   [Text ''Update Stock''],
                 Elem ''Button'' [(''variant'', JStr ''outline-primary'')] [Text ''Report Issue'']]]]]]]"

subsection \<open>Reading an element tree\<close>

primrec tag :: "node \<Rightarrow> string" where
  "tag (Text s) = ''#text''"
| "tag (Elem t ps cs) = t"

primrec props :: "node \<Rightarrow> (string \<times> jsval) list" where
  "props (Text s) = []"
| "props (Elem t ps cs) = ps"

primrec children :: "node \<Rightarrow> node list" where
  "children (Text s) = []"
| "children (Elem t ps cs) = cs"

text \<open>The text content of a node (\<open>textContent\<close> of what it renders).\<close>

primrec text_of :: "node \<Rightarrow> string" where
  "text_of (Text s) = s"
| "text_of (Elem t ps cs) = concat (map text_of cs)"

text \<open>The elements of a given type, in document order.\<close>

primrec elems_with :: "string \<Rightarrow> node \<Rightarrow> node list" where
  "elems_with k (Text s) = []"
| "elems_with k (Elem t ps cs) =
     (if t = k then [Elem t ps cs] else []) @ concat (map (elems_with k) cs)"

subsection \<open>What the layout should satisfy\<close>

text \<open>
  Bootstrap's grid has twelve columns: the \<open>md\<close> widths of the columns of a row
  fit in it, and each column's width is between 1 and 12.
\<close>

definition col_width :: "node \<Rightarrow> int" where
  "col_width n =
     (if tag n = ''Col'' then (case map_of (props n) ''md'' of Some (JNum w) \<Rightarrow> w | _ \<Rightarrow> 0) else 0)"

definition grid_ok :: "node \<Rightarrow> bool" where
  "grid_ok n \<longleftrightarrow>
     list_all (\<lambda>c. 0 < col_width c \<and> col_width c \<le> 12) (elems_with ''Col'' n) \<and>
     list_all (\<lambda>r. sum_list (map col_width (children r)) \<le> 12) (elems_with ''Row'' n)"

text \<open>
  A table is well formed when it has a header and every body row has one cell per
  header column.
\<close>

definition body_rows :: "node \<Rightarrow> node list" where
  "body_rows t = concat (map (elems_with ''tr'') (filter (\<lambda>c. tag c = ''tbody'') (children t)))"

definition table_ok :: "node \<Rightarrow> bool" where
  "table_ok n \<longleftrightarrow>
     list_all (\<lambda>t. 0 < length (elems_with ''th'' t) \<and>
        list_all (\<lambda>r. length (filter (\<lambda>c. tag c = ''td'') (children r)) = length (elems_with ''th'' t))
          (body_rows t))
       (elems_with ''Table'' n)"

text \<open>The summary cards: the title and the figure of each card body that has a title.\<close>

definition stat_cards :: "node \<Rightarrow> (string \<times> string) list" where
  "stat_cards n =
     map (\<lambda>b. (concat (map text_of (elems_with ''Card.Title'' b)),
               concat (map text_of (elems_with ''Card.Text'' b))))
       (filter (\<lambda>b. elems_with ''Card.Title'' b \<noteq> []) (elems_with ''Card.Body'' n))"

text \<open>A button does something only through an \<open>onClick\<close> handler.\<close>

definition inert_buttons :: "node \<Rightarrow> bool" where
  "inert_buttons n \<longleftrightarrow> list_all (\<lambda>b. map_of (props b) ''onClick'' = None) (elems_with ''Button'' n)"

lemmas dashboard_eval =
  WarehouseStaffDashboard_def col_width_def grid_ok_def table_ok_def body_rows_def stat_cards_def
  inert_buttons_def

subsection \<open>Properties of the dashboard\<close>

text \<open>
  The dashboard's layout fits Bootstrap's twelve-column grid: every column is 1 to
  12 units wide and the columns of each row add up to at most 12.
\<close>

lemma dashboard_grid_ok: "grid_ok WarehouseStaffDashboard"
  by (simp add: dashboard_eval)

text \<open>
  The task table of the dashboard is well formed: it has a header, and every row
  has one cell per header column.
\<close>

lemma dashboard_table_ok: "table_ok WarehouseStaffDashboard"
  by (simp add: dashboard_eval)

text \<open>
  The summary cards show the hard-coded figures 15 pending orders, 34 items to
  pack and 8 low-stock items, in that order.
\<close>

lemma dashboard_stat_cards:
  "stat_cards WarehouseStaffDashboard =
     [(''Pending Orders'', ''15''), (''Items to Pack'', ''34''), (''Low Stock Items'', ''8'')]"
  by (simp add: dashboard_eval)

text \<open>
  The dashboard renders nine buttons and none of them has a click handler: every
  action it offers does nothing.
\<close>

lemma dashboard_buttons_inert:
  "map text_of (elems_with ''Button'' WarehouseStaffDashboard) =
     [''Process Orders'', ''View Packing List'', ''Check Inventory'', ''Process'', ''Complete'',
      ''Scan New Items'', ''Print Labels'', ''Update Stock'', ''Report Issue''] \<and>
   inert_buttons WarehouseStaffDashboard"
  by (simp add: dashboard_eval)

end
