(* ===== verification/JSON_Wellformed.thy ===== *)
theory JSON_Wellformed
  imports JSON_Roundtrip
begin

text \<open>
  What \<open>JSON.parse\<close> returns is a JSON value (\<open>json_parse_json_value\<close>): an
  object it builds has distinct keys in the order a JavaScript object enumerates
  them (array indices ascending first, then the other keys in insertion order), and
  no \<open>undefined\<close> anywhere. The parser builds objects with \<open>obj_put\<close>, which replaces
  the value of a repeated key in place and moves index keys before the others; the
  lemmas below show it keeps both invariants. Index keys are canonical decimal
  strings, so two keys with the same index are the same key (\<open>array_index_inj\<close>).
\<close>

subsection \<open>Array indices are canonical\<close>

lemma digit_char_digit_val: "is_digit c \<Longrightarrow> digit_char (digit_val c) = c"
  by (simp add: is_digit_def digit_char_def digit_val_def)

lemma show_nat_digits_val:
  "list_all is_digit k \<Longrightarrow> k \<noteq> [] \<Longrightarrow> (k = ''0'' \<or> hd k \<noteq> CHR ''0'') \<Longrightarrow>
   show_nat (digits_val 0 k) = k"
proof (induction k rule: rev_induct)
  case Nil
  then show ?case by simp
next
  case (snoc c xs)
  have c: "is_digit c" using snoc.prems(1) by simp
  then have d: "digit_val c < 10" unfolding is_digit_def digit_val_def by linarith
  show ?case
  proof (cases "xs = []")
    case True
    with c d show ?thesis by (simp add: show_nat.simps digit_char_digit_val)
  next
    case False
    then have hd: "hd xs \<noteq> CHR ''0''" using snoc.prems(3) by auto
    have IH: "show_nat (digits_val 0 xs) = xs"
      using snoc.IH snoc.prems(1) False hd by simp
    have "digits_val 0 xs \<noteq> 0"
    proof
      assume "digits_val 0 xs = 0"
      with IH have "xs = ''0''" by simp
      with hd show False by simp
    qed
    then have "show_nat (10 * digits_val 0 xs + digit_val c) =
        show_nat (digits_val 0 xs) @ [digit_char (digit_val c)]"
      using d by (subst show_nat.simps) simp
    with IH c show ?thesis by (simp add: digits_val_append digit_char_digit_val)
  qed
qed

lemma array_index_show_nat:
  assumes "array_index k = Some i"
  shows "k = show_nat i"
proof -
  from assms have c: "list_all is_digit k" "k \<noteq> []" "k = ''0'' \<or> hd k \<noteq> CHR ''0''"
    and i: "i = digits_val 0 k"
    by (auto simp: array_index_def split: if_splits)
  from c have "show_nat (digits_val 0 k) = k" by (rule show_nat_digits_val)
  with i show ?thesis by simp
qed

lemma array_index_inj: "array_index k = Some i \<Longrightarrow> array_index k' = Some i \<Longrightarrow> k = k'"
  by (metis array_index_show_nat)

subsection \<open>Objects built with obj_put\<close>

lemma set_insert_index: "set (insert_index i k v ps) = insert (k, v) (set ps)"
  by (induction ps) (auto split: option.splits if_splits)

lemma keys_insert_index: "fst ` set (insert_index i k v ps) = insert k (fst ` set ps)"
  by (simp add: set_insert_index)

lemma distinct_insert_index:
  "distinct (map fst ps) \<Longrightarrow> k \<notin> fst ` set ps \<Longrightarrow> distinct (map fst (insert_index i k v ps))"
proof (induction ps)
  case (Cons p ps)
  then show ?case
    using keys_insert_index [of i k v ps] by (cases p) (auto split: option.splits if_splits)
qed simp

lemma list_all_keys: "list_all (\<lambda>(k', v'). f k') ps = list_all f (map fst ps)"
  by (induction ps) auto

lemma key_order_keys: "map fst ps = map fst qs \<Longrightarrow> key_order ps = key_order qs"
proof (induction ps arbitrary: qs)
  case Nil
  then show ?case by simp
next
  case (Cons p ps)
  obtain k v where p: "p = (k, v)" by fastforce
  from Cons.prems p obtain w qs' where qs: "qs = (k, w) # qs'" and keys: "map fst ps = map fst qs'"
    by (cases qs) auto
  have IH: "key_order ps = key_order qs'" using keys by (rule Cons.IH)
  have hd: "(case ps of [] \<Rightarrow> True
             | (k', v') # _ \<Rightarrow> (case array_index k' of None \<Rightarrow> True | Some j \<Rightarrow> i < j)) =
            (case qs' of [] \<Rightarrow> True
             | (k', v') # _ \<Rightarrow> (case array_index k' of None \<Rightarrow> True | Some j \<Rightarrow> i < j))" for i
    using keys by (cases ps; cases qs') auto
  show ?case
    using IH hd keys unfolding p qs by (simp add: list_all_keys split: option.splits)
qed

lemma key_order_update:
  "map_of ps k \<noteq> None \<Longrightarrow> key_order (AList.update k v ps) = key_order ps"
  by (rule key_order_keys) (simp add: AList.update_keys map_of_eq_None_iff)

lemma key_order_append_other:
  "key_order ps \<Longrightarrow> array_index k = None \<Longrightarrow> key_order (ps @ [(k, v)])"
proof (induction ps)
  case (Cons p ps)
  obtain k' v' where p: "p = (k', v')" by fastforce
  show ?case
  proof (cases "array_index k'")
    case None
    with Cons.prems p show ?thesis by simp
  next
    case (Some j)
    with Cons.prems p have "key_order (ps @ [(k, v)])" by (intro Cons.IH) simp_all
    with Cons.prems p Some show ?thesis by (cases ps) auto
  qed
qed simp

lemma key_order_insert_index:
  "key_order ps \<Longrightarrow> array_index k = Some i \<Longrightarrow> list_all (\<lambda>(k', v'). array_index k' \<noteq> Some i) ps \<Longrightarrow>
   key_order (insert_index i k v ps)"
proof (induction ps)
  case Nil
  then show ?case by simp
next
  case (Cons p ps)
  obtain k' v' where p: "p = (k', v')" by fastforce
  show ?case
  proof (cases "array_index k'")
    case None
    with Cons.prems p show ?thesis by simp
  next
    case (Some j)
    have "j \<noteq> i" using Cons.prems(3) p Some by auto
    show ?thesis
    proof (cases "j < i")
      case False
      with \<open>j \<noteq> i\<close> Cons.prems(1,2) p Some show ?thesis by simp
    next
      case True
      have ko: "key_order ps" using Cons.prems(1) p Some by simp
      have IH: "key_order (insert_index i k v ps)"
        using Cons.prems(2,3) ko by (intro Cons.IH) simp_all
      have hd: "case insert_index i k v ps of [] \<Rightarrow> True
                 | (k2, v2) # _ \<Rightarrow> (case array_index k2 of None \<Rightarrow> True | Some j2 \<Rightarrow> j < j2)"
      proof (cases ps)
        case Nil
        with True Cons.prems(2) show ?thesis by simp
      next
        case (Cons q qs)
        obtain k3 v3 where q: "q = (k3, v3)" by fastforce
        show ?thesis
        proof (cases "array_index k3")
          case None
          with Cons q True Cons.prems(2) show ?thesis by simp
        next
          case (Some j3)
          have "j < j3" using \<open>key_order (p # ps)\<close> p \<open>array_index k' = Some j\<close> Cons q Some by simp
          with Cons q Some True Cons.prems(2) show ?thesis by simp
        qed
      qed
      with IH True p Some show ?thesis by (simp split: list.splits prod.splits)
    qed
  qed
qed

lemma list_all_update:
  "list_all (\<lambda>(k', v'). P v') ps \<Longrightarrow> P v \<Longrightarrow> list_all (\<lambda>(k', v'). P v') (AList.update k v ps)"
  by (induction ps) auto

lemma list_all_insert_index:
  "list_all (\<lambda>(k', v'). P v') ps \<Longrightarrow> P v \<Longrightarrow> list_all (\<lambda>(k', v'). P v') (insert_index i k v ps)"
  by (induction ps) (auto split: option.splits)

lemma obj_put_json_value:
  assumes v: "json_value v" and ps: "json_value (JObj ps)"
  shows "json_value (JObj (obj_put k v ps))"
proof (cases "map_of ps k")
  case (Some w)
  then have eq: "obj_put k v ps = AList.update k v ps" by (simp add: obj_put_def)
  have "key_order (AList.update k v ps)" using ps Some by (simp add: key_order_update)
  moreover have "list_all (\<lambda>(k', v'). json_value v') (AList.update k v ps)"
    using ps v by (intro list_all_update) simp_all
  ultimately show ?thesis using ps by (simp add: eq)
next
  case None
  then have k: "k \<notin> fst ` set ps" by (simp add: map_of_eq_None_iff)
  show ?thesis
  proof (cases "array_index k")
    case None
    with \<open>map_of ps k = None\<close> have eq: "obj_put k v ps = ps @ [(k, v)]" by (simp add: obj_put_def)
    have "key_order (ps @ [(k, v)])" using ps None by (intro key_order_append_other) simp_all
    with ps v k show ?thesis by (simp add: eq)
  next
    case (Some i)
    with \<open>map_of ps k = None\<close> have eq: "obj_put k v ps = insert_index i k v ps"
      by (simp add: obj_put_def)
    have "list_all (\<lambda>(k', v'). array_index k' \<noteq> Some i) ps"
      unfolding list_all_iff
    proof (intro ballI)
      fix p assume "p \<in> set ps"
      with k have "fst p \<noteq> k" by (metis image_eqI)
      then show "case p of (k', v') \<Rightarrow> array_index k' \<noteq> Some i"
        using Some array_index_inj by (cases p) auto
    qed
    then have "key_order (insert_index i k v ps)" using ps Some by (intro key_order_insert_index) simp_all
    moreover have "distinct_keys (insert_index i k v ps)" using ps k by (intro distinct_insert_index) simp_all
    moreover have "list_all (\<lambda>(k', v'). json_value v') (insert_index i k v ps)"
      using ps v by (intro list_all_insert_index) simp_all
    ultimately show ?thesis by (simp add: eq)
  qed
qed

subsection \<open>Parsed values\<close>

lemma parse_number_json_value: "parse_number s = Some (v, r) \<Longrightarrow> json_value v"
  by (auto simp: parse_number_def split: list.splits if_splits)

lemma parse_literal_json_value: "parse_literal s = Some (v, r) \<Longrightarrow> json_value v"
  by (auto simp: parse_literal_def split: if_splits)

lemma parse_members_PDone:
  "parse_members (Suc n) macc s = PDone v r \<Longrightarrow>
   \<exists>cs k r1 r2 w r3 r4. skip_ws s = CHR 0x22 # cs \<and> parse_string cs = Some (k, r1) \<and>
     skip_ws r1 = CHR '':'' # r2 \<and> parse_value n r2 = PDone w r3 \<and>
     ((skip_ws r3 = CHR '','' # r4 \<and> parse_members n (obj_put k w macc) r4 = PDone v r) \<or>
      (skip_ws r3 = CHR ''}'' # r \<and> v = JObj (obj_put k w macc)))"
  by (auto split: list.splits if_splits option.splits presult.splits)

lemma parse_json_value:
  "parse_value n s = PDone v r \<Longrightarrow> json_value v"
  "parse_elems n acc s = PDone v r \<Longrightarrow> list_all json_value acc \<Longrightarrow> json_value v"
  "parse_members n macc s = PDone v r \<Longrightarrow> json_value (JObj macc) \<Longrightarrow> json_value v"
proof (induction n s and n acc s and n macc s arbitrary: v r and v r and v r
    rule: parse_value_parse_elems_parse_members.induct)
  case (1 s)
  then show ?case by simp
next
  case (2 n s)
  then show ?case
    by (auto split: if_splits list.splits option.splits
        dest: parse_number_json_value parse_literal_json_value)
next
  case (3 acc s)
  then show ?case by simp
next
  case (4 n acc s)
  then show ?case
    by (auto split: presult.splits list.splits if_splits)
next
  case (5 acc s)
  then show ?case by simp
next
  case (6 n macc s)
  from parse_members_PDone [OF "6.prems"(1)] obtain cs k r1 r2 w r3 r4 where
    sk: "skip_ws s = CHR 0x22 # cs" and ps: "parse_string cs = Some (k, r1)"
    and sk1: "skip_ws r1 = CHR '':'' # r2" and pv: "parse_value n r2 = PDone w r3"
    and rest: "(skip_ws r3 = CHR '','' # r4 \<and> parse_members n (obj_put k w macc) r4 = PDone v r) \<or>
      (skip_ws r3 = CHR ''}'' # r \<and> v = JObj (obj_put k w macc))"
    by blast
  have "json_value w" using "6.IH"(1) sk ps sk1 pv by blast
  then have obj: "json_value (JObj (obj_put k w macc))"
    using "6.prems"(2) by (rule obj_put_json_value)
  from rest show ?case
  proof
    assume "skip_ws r3 = CHR '','' # r4 \<and> parse_members n (obj_put k w macc) r4 = PDone v r"
    then show ?thesis using "6.IH"(2) sk ps sk1 pv obj by blast
  next
    assume "skip_ws r3 = CHR ''}'' # r \<and> v = JObj (obj_put k w macc)"
    with obj show ?thesis by simp
  qed
qed

subsection \<open>JSON.parse\<close>

lemma json_parse_json_value: "json_parse s = Inr v \<Longrightarrow> json_value v"
  by (auto simp: json_parse_def dest: parse_json_value(1)
      split: presult.splits if_splits)

end
