(* ===== verification/Spec2Isabelle.thy ===== *)
theory Spec2Isabelle
  imports Async_Calls Auth_Console Dashboard JSON_Wellformed
begin

text \<open>
  A verification library for the front end of the Logistics Management System
  (\<open>src/frontend/src\<close>). The part of the program with behaviour is
  \<open>services/authService.js\<close>, the singleton \<open>AuthService\<close> through which the
  application logs in, registers, logs out and reads the current session. It talks to
  two collaborators: the back end, through \<open>axios.post\<close>, and the browser's
  \<open>localStorage\<close>, whose slot \<open>user\<close> holds the session as JSON text written by
  \<open>JSON.stringify\<close> and read back by \<open>JSON.parse\<close>. The other source file,
  \<open>components/dashboards/WarehouseStaffDashboard.js\<close>, is a React component
  without props or state that returns fixed markup with hard-coded numbers.

  \<^bold>\<open>Theories.\<close>
  \<^item> \<^theory_text>\<open>JS_Prelude\<close>: association lists with distinct keys, decimal
    printing and reading of naturals, shared lemmas (collections \<open>js_simps\<close>,
    \<open>storage_simps\<close>).
  \<^item> \<^theory_text>\<open>JS_Value\<close>: the JavaScript values the service handles
    (\<open>jsval\<close>), ToBoolean (\<open>js_truthy\<close>), \<open>||\<close> (\<open>js_or\<close>), property reads
    that throw a TypeError on \<open>null\<close>/\<open>undefined\<close> (\<open>get_prop\<close>), settled promises
    and the own-key order of ordinary objects (\<open>obj_put\<close>, \<open>key_order\<close>).
  \<^item> \<^theory_text>\<open>JSON_Codec\<close>: \<open>JSON.stringify\<close> (\<open>json_stringify\<close>) and
    \<open>JSON.parse\<close> (\<open>json_parse\<close>), the parser a recursive descent with fuel
    (\<open>parse_value\<close>, result \<open>POutOfFuel\<close> when the fuel is spent).
  \<^item> \<^theory_text>\<open>JSON_Roundtrip\<close>: parsing the printed text of any JSON value
    gives the value back, key order included (\<open>json_parse_stringify\<close>); the
    fuel \<open>json_fuel s = 2 * length s + 1\<close> is always enough
    (\<open>json_parse_returns\<close>): running out with fuel \<open>n + 1\<close> needs a recursive
    call with fuel \<open>n\<close> on strictly shorter input (the \<open>_out_of_fuel\<close> step
    lemmas), so \<open>json_parse\<close> is total in the model as it is in the engine.
  \<^item> \<^theory_text>\<open>JSON_Wellformed\<close>: every value \<open>json_parse\<close> returns is a
    JSON value (\<open>json_parse_json_value\<close>): the parser builds objects with
    \<open>obj_put\<close>, which keeps keys distinct and in enumeration order, because index
    keys are canonical decimal strings (\<open>array_index_inj\<close>).
  \<^item> \<^theory_text>\<open>Web_Storage\<close>: \<open>localStorage\<close> as a record of an association
    list and a quota; \<open>setItem\<close> throws \<open>QuotaExceededError\<close> beyond the quota;
    the invariant \<open>storage_ok\<close> (distinct keys, within the quota) is kept by every
    operation.
  \<^item> \<^theory_text>\<open>Axios\<close>: \<open>axios.post\<close> over an abstract server, a function from
    request to reply; 2xx resolves with \<open>{data, status, config}\<close>, any other status
    or no reply rejects with an AxiosError object; both carry the request's
    \<open>config\<close>, whose \<open>data\<close> is the request body as sent.
  \<^item> \<^theory_text>\<open>Auth_Service\<close>: the service itself, translated method by method
    from \<open>authService.js\<close>: \<open>login\<close> (lines 6--59) is \<open>login_request\<close>, the awaited
    \<open>axios.post\<close>, composed with \<open>login_resume\<close>, whose parts are the
    \<open>try\<close> block after the await (\<open>login_try\<close>) and the \<open>catch\<close> block
    (\<open>login_catch\<close>); \<open>logout\<close>, \<open>register\<close> and \<open>getCurrentUser\<close> follow
    their methods. The service has no fields; its state is the storage, passed in and
    returned. \<open>auth_call\<close> runs one call of the interface (\<open>service_call\<close>) and
    \<open>run_calls\<close> a sequence of calls on the one shared instance
    (\<open>export default new AuthService()\<close>).
  \<^item> \<^theory_text>\<open>Auth_Console\<close>: the console output. \<open>login_traced\<close> and
    \<open>register_traced\<close> are \<open>login\<close> and \<open>register\<close> with their
    \<open>console.log\<close>/\<open>console.error\<close> calls, returning the entries written;
    \<open>mentions\<close> says a text occurs in a logged value.
  \<^item> \<^theory_text>\<open>Session_Spec\<close>: the contract of the service on the session, from
    the specification: \<open>session_of\<close> abstracts a storage to the record
    \<open>getCurrentUser\<close> would return, \<open>session_spec\<close> says what each call may do
    to it (a login keeps it or installs the record the server accepted,
    \<open>accepted_session\<close>; \<open>logout\<close> clears it; the other calls keep it) and
    \<open>spec_run\<close> lifts it to sequences. The lemmas prove each call refines it and that
    the slot stays well formed (\<open>session_ok\<close>).
  \<^item> \<^theory_text>\<open>Async_Calls\<close>: the asynchronous methods interleaved. \<open>login\<close>
    and \<open>register\<close> suspend at \<open>await axios.post\<close>; the state \<open>app\<close> is the
    storage and the calls in flight; \<open>invoke\<close> starts a call (\<open>logout\<close> and
    \<open>getCurrentUser\<close> complete at once), \<open>deliver\<close> resumes any call in flight
    with its reply (\<open>resume\<close> is the code after the \<open>await\<close>), so replies may
    arrive in any order. \<open>app_step\<close> is the step relation, \<open>reachable\<close> its
    reachable states (rule induction), \<open>run_events\<close> one schedule, and
    \<open>sequential\<close> the schedule that completes each call before the next
    (\<open>sequential_schedule\<close>: the sequential model is one schedule of the
    interleaved one; \<open>drain_in_order\<close>: delivering every reply in flight empties
    the queue in call order). \<open>event_call\<close> names the call each event performs a
    step of, and every event is a contract step of that call
    (\<open>app_event_session_spec\<close>).
  \<^item> \<^theory_text>\<open>Dashboard\<close>: the dashboard as the element tree its JSX builds
    (\<open>WarehouseStaffDashboard\<close>, type \<open>node\<close>), and checks over any tree: the
    Bootstrap grid (\<open>grid_ok\<close>), table shape (\<open>table_ok\<close>), summary figures
    (\<open>stat_cards\<close>) and click handlers (\<open>inert_buttons\<close>). The component
    has no input, props or state, so these facts are evaluations of one constant
    tree (\<open>dashboard_grid_ok\<close>, \<open>dashboard_table_ok\<close>,
    \<open>dashboard_stat_cards\<close>, \<open>dashboard_buttons_inert\<close>) and are kept as
    lemmas documenting the component, not as properties.
  \<^item> This theory: the session across any sequence of calls.

  \<^bold>\<open>What is proved.\<close> For \<open>login\<close>, the result and the storage on every branch
  of the code: success (C1, C2), a reply without a token (C3), an error reply with and
  without a message (C4, C5, C17), no reply (C6), a storage quota error (C12), and that
  the returned promise never rejects (C10) because the \<open>catch\<close> block normalises
  every value axios rejects with (C11). \<open>logout\<close> clears the session (C7);
  \<open>register\<close> passes the response and the error through unchanged (C8, C9);
  \<open>getCurrentUser\<close> reads back what was stored (C13) and throws on a corrupt slot
  (C14). No call touches a key but \<open>user\<close> (C15), and over any sequence of calls
  the slot holds either nothing or a record with a token (C16). The service refines
  its contract call by call (C18), so the session it ends with is the initial one,
  none, or one the server accepted for a login of the sequence (C19). Interleaved,
  the storage and slot invariants hold in every reachable state (C20); a
  \<open>logout\<close> does not cancel a login in flight (C21), and the last reply delivered
  decides the session (C22). Every \<open>login\<close> writes the password to the console
  (C23), as does every failed \<open>register\<close> (C24), while a successful
  \<open>register\<close> does not unless the server echoes it (C25); \<open>traced_methods_equiv\<close>
  shows the traced methods are the methods of \<^theory_text>\<open>Auth_Service\<close> with output
  added. The interleaved service refines the contract event by event: any schedule it
  runs moves the session as the contract allows for the calls its events perform
  (C26), so in every reachable state the session is the initial one, none, or one
  the server accepted (C27). Witnesses apply each theorem with hypotheses to concrete
  servers (\<open>\<lambda>_. Reply 200 demo_user\<close>, ...) and storages.

  \<^bold>\<open>Bounds and fuel.\<close> The parser's fuel is \<open>2 * length s + 1\<close>: a call
  with fuel \<open>n + 1\<close> recurses with fuel \<open>n\<close> either on strictly shorter input or,
  once (an element list handing its first element to \<open>parse_value\<close>), on the same
  input, so two units per character suffice (\<open>parse_fuel_enough\<close>,
  \<open>json_parse_returns\<close>). Storage use is counted in characters of keys and values
  against the quota, as browsers count it.

  \<^bold>\<open>Not modelled.\<close> How the browser displays logged objects (a value is taken to
  show all its strings); React's rendering to the DOM (the dashboard is
  the tree its JSX creates, with react-bootstrap components as opaque element types);
  timers, cancellation and a server whose answer changes over time (the server is a
  function of the request); JavaScript numbers beyond integers,
  prototypes and functions; \<open>\\u\<close> escapes above \<open>0xFF\<close>. Numbers, storage and
  HTTP follow the platform's documented behaviour, not code of this repository, so
  those components stay partly modelled: only the behaviour \<open>authService.js\<close>
  depends on is translated (axios' statusText, headers, interceptors and timeouts,
  storage events and other origins, and non-integer JSON numbers are not), and the
  rest of the source has no further behaviour to model.
\<close>

subsection \<open>The session across sequences of calls\<close>

text \<open>
  C16: if the back end only ever answers with JSON bodies and the slot starts well
  formed, then after any sequence of calls \<open>getCurrentUser\<close> does not throw, and
  returns either \<open>null\<close> or a session record with a truthy token.
\<close>

theorem session_invariant:
  assumes "\<And>r s d. srv r = Reply s d \<Longrightarrow> json_value d" and "session_ok st"
  shows "\<exists>v. getCurrentUser (snd (run_calls srv cs st)) = Inr v \<and>
           (v = JNull \<or> js_truthy (prop_of v ''token''))"
proof -
  have "session_ok (snd (run_calls srv cs st))" using assms by (rule run_calls_session_ok)
  then show ?thesis
    by (auto simp: session_ok_def getCurrentUser_def current_user_text_def json_parse_null
        split: option.splits sum.splits)
qed

theorem session_invariant_witness:
  "\<exists>v. getCurrentUser (snd (run_calls (\<lambda>_. Reply 200 demo_user)
         [Login ''alice'' ''pw'', GetCurrentUser, Logout, Login ''bob'' ''pw''] demo_storage)) = Inr v
     \<and> (v = JNull \<or> js_truthy (prop_of v ''token''))"
  by (rule session_invariant) (simp_all add: demo_eval session_ok_def)

text \<open>
  C19: whatever sequence of calls the application makes, the session it ends with is
  the one it started with, none, or a record the back end accepted for the
  credentials of one of the logins in the sequence: no other record can become the
  session.
\<close>

theorem session_provenance:
  assumes "\<And>r s d. srv r = Reply s d \<Longrightarrow> json_value d"
  shows "session_of (snd (run_calls srv cs st)) = session_of st \<or>
         session_of (snd (run_calls srv cs st)) = None \<or>
         (\<exists>u p. Login u p \<in> set cs \<and> accepted_session srv u p = session_of (snd (run_calls srv cs st)))"
proof (induction cs arbitrary: st)
  case (Cons c cs)
  obtain r st' where a: "auth_call srv c st = (r, st')" by (cases "auth_call srv c st")
  have "session_spec srv c (session_of st) (session_of st')"
    using auth_call_session_spec [of srv c st, OF assms] a by simp
  from session_spec_cases [OF this] Cons.IH [of st'] a show ?case
    by (cases "run_calls srv cs st'") (simp, metis)
qed simp

theorem session_provenance_witness:
  "session_of (snd (run_calls (\<lambda>_. Reply 200 demo_user) [Login ''alice'' ''pw''] demo_storage)) =
     session_of demo_storage \<or>
   session_of (snd (run_calls (\<lambda>_. Reply 200 demo_user) [Login ''alice'' ''pw''] demo_storage)) = None \<or>
   (\<exists>u p. Login u p \<in> set [Login ''alice'' ''pw''] \<and>
      accepted_session (\<lambda>_. Reply 200 demo_user) u p =
        session_of (snd (run_calls (\<lambda>_. Reply 200 demo_user) [Login ''alice'' ''pw''] demo_storage)))"
  by (rule session_provenance) (simp add: demo_eval)

end
